theory Spec2Isabelle
  imports Complex_Main
begin

section \<open>JSON values of the request body\<close>

text \<open>
  The handler of \<^verbatim>\<open>working_api.js\<close> receives \<^verbatim>\<open>req.body\<close> as parsed by
  \<^verbatim>\<open>express.json\<close>. The values it can hold are the JSON values, plus
  \<^verbatim>\<open>undefined\<close> for a property that is absent. A number is the exact rational value of
  its double; a string is its sequence of bytes.
\<close>

datatype jsval =
    JUndefined
  | JNull
  | JBool bool
  | JNum rat
  | JStr string
  | JArr "jsval list"
  | JObj "(string \<times> jsval) list"

text \<open>\<^verbatim>\<open>!v\<close>: the falsy values are undefined, null, false, 0 and the empty string.\<close>

fun falsy :: "jsval \<Rightarrow> bool" where
  "falsy JUndefined = True"
| "falsy JNull = True"
| "falsy (JBool b) = (\<not> b)"
| "falsy (JNum r) = (r = 0)"
| "falsy (JStr s) = (s = [])"
| "falsy (JArr xs) = False"
| "falsy (JObj kvs) = False"

fun nullish :: "jsval \<Rightarrow> bool" where
  "nullish JUndefined = True"
| "nullish JNull = True"
| "nullish (JBool b) = False"
| "nullish (JNum r) = False"
| "nullish (JStr s) = False"
| "nullish (JArr xs) = False"
| "nullish (JObj kvs) = False"

fun typeof :: "jsval \<Rightarrow> string" where
  "typeof JUndefined = ''undefined''"
| "typeof JNull = ''object''"
| "typeof (JBool b) = ''boolean''"
| "typeof (JNum r) = ''number''"
| "typeof (JStr s) = ''string''"
| "typeof (JArr xs) = ''object''"
| "typeof (JObj kvs) = ''object''"

fun isArray :: "jsval \<Rightarrow> bool" where
  "isArray (JArr xs) = True"
| "isArray JUndefined = False"
| "isArray JNull = False"
| "isArray (JBool b) = False"
| "isArray (JNum r) = False"
| "isArray (JStr s) = False"
| "isArray (JObj kvs) = False"

fun elements :: "jsval \<Rightarrow> jsval list" where
  "elements (JArr xs) = xs"
| "elements JUndefined = []"
| "elements JNull = []"
| "elements (JBool b) = []"
| "elements (JNum r) = []"
| "elements (JStr s) = []"
| "elements (JObj kvs) = []"

text \<open>
  Reading a property of an object parsed from JSON: the last of several equal keys wins,
  an absent key reads as undefined. The handler reads only the names \<^verbatim>\<open>dataset\<close>,
  \<^verbatim>\<open>group_img\<close>, \<^verbatim>\<open>id\<close> and \<^verbatim>\<open>imglink\<close>, which no array, string, number or
  boolean has, so these read as undefined there. (On null and undefined the read throws;
  every caller below tests for them first.)
\<close>

fun getProp :: "jsval \<Rightarrow> string \<Rightarrow> jsval" where
  "getProp (JObj kvs) k = (case map_of (rev kvs) k of None \<Rightarrow> JUndefined | Some v \<Rightarrow> v)"
| "getProp JUndefined k = JUndefined"
| "getProp JNull k = JUndefined"
| "getProp (JBool b) k = JUndefined"
| "getProp (JNum r) k = JUndefined"
| "getProp (JStr s) k = JUndefined"
| "getProp (JArr xs) k = JUndefined"

section \<open>Conversion to strings\<close>

definition digit_char :: "nat \<Rightarrow> char" where
  "digit_char d = char_of (48 + d)"

text \<open>The decimal digits of a non-negative integer, as a template literal prints it.\<close>

fun show_nat :: "nat \<Rightarrow> string" where
  "show_nat n = (if n < 10 then [digit_char n] else show_nat (n div 10) @ [digit_char (n mod 10)])"

declare show_nat.simps [simp del]

text \<open>\<^verbatim>\<open>Array.prototype.join\<close> with the default separator.\<close>

fun join_strs :: "string list \<Rightarrow> string" where
  "join_strs [] = []"
| "join_strs [s] = s"
| "join_strs (s # t # ts) = s @ '','' @ join_strs (t # ts)"

text \<open>
  \<^verbatim>\<open>ToString\<close> of a value, as a template literal, \<^verbatim>\<open>RegExp.prototype.test\<close> and
  \<^verbatim>\<open>id.toString()\<close> compute it; \<open>None\<close> is the TypeError. The printing of a number
  is the parameter \<open>nts\<close>. An array joins its elements, null and undefined elements
  printing as the empty string. An object parsed from JSON prints as
  \<^verbatim>\<open>[object Object]\<close>, unless it has a key \<^verbatim>\<open>toString\<close> of its own: its value is
  never a function, so the conversion throws.
\<close>

fun toString_js :: "(rat \<Rightarrow> string) \<Rightarrow> jsval \<Rightarrow> string option" where
  "toString_js nts JUndefined = Some ''undefined''"
| "toString_js nts JNull = Some ''null''"
| "toString_js nts (JBool b) = Some (if b then ''true'' else ''false'')"
| "toString_js nts (JNum r) = Some (nts r)"
| "toString_js nts (JStr s) = Some s"
| "toString_js nts (JArr xs) =
     (let parts = map (\<lambda>x. if nullish x then Some [] else toString_js nts x) xs
      in if None \<in> set parts then None else Some (join_strs (map the parts)))"
| "toString_js nts (JObj kvs) =
     (if ''toString'' \<in> set (map fst kvs) then None else Some ''[object Object]'')"

definition cannot_convert :: string where
  "cannot_convert = ''Cannot convert object to primitive value''"

section \<open>The outside world\<close>

text \<open>
  What \<^verbatim>\<open>node-fetch\<close>, \<^verbatim>\<open>canvas\<close> and \<^verbatim>\<open>face-api.js\<close> answer is not code of this
  repository: it is a parameter of the model. An error is the message of the thrown
  \<^verbatim>\<open>Error\<close>.
\<close>

record 'i response =
  ok :: bool
  status :: nat
  statusText :: string
  decoded :: "string + 'i"

datatype net = FaceRecognitionNet | FaceLandmark68Net | SsdMobilenetv1

record 'd labeled =
  label :: string
  descriptors :: "'d list"

record ('i, 'd) env =
  numberToString :: "rat \<Rightarrow> string"
  fetch :: "jsval \<Rightarrow> nat \<Rightarrow> string + 'i response"
  loadFromDisk :: "net \<Rightarrow> string option"
  detectSingleFace :: "'i option \<Rightarrow> string + 'd option"
  detectAllFaces :: "'i option \<Rightarrow> string + 'd list"
  findBestMatch :: "'d labeled list \<Rightarrow> rat \<Rightarrow> 'd \<Rightarrow> string \<times> rat"
  development :: bool
  stackOf :: "string \<Rightarrow> string"

text \<open>
  \<open>fetch env url k\<close> is what the \<open>k\<close>-th attempt of one call of
  \<^verbatim>\<open>loadImageWithRetry\<close> on \<open>url\<close> meets: a rejection (network error, timeout), or a
  response with its \<^verbatim>\<open>ok\<close> flag, its status and the outcome of reading and decoding its
  bytes. \<open>loadFromDisk env n\<close> is \<open>Some msg\<close> when loading the net \<open>n\<close> rejects.
  \<open>detectSingleFace\<close> and \<open>detectAllFaces\<close> stand for the detection chains with
  landmarks and descriptors; a detection is represented by its descriptor, the only part
  the code reads. \<open>findBestMatch env refs t d\<close> is the label and the distance that a
  \<^verbatim>\<open>FaceMatcher\<close> built from \<open>refs\<close> with threshold \<open>t\<close> answers for \<open>d\<close>.
\<close>

datatype event =
    LoadFromDisk net
  | Fetch jsval nat
  | Delay nat
  | DetectSingleFace
  | DetectAllFaces

section \<open>loadImageWithRetry\<close>

definition MAX_RETRIES :: nat where
  "MAX_RETRIES = 3"

definition RETRY_DELAY :: nat where
  "RETRY_DELAY = 1000"

text \<open>The double that the literal \<^verbatim>\<open>0.6\<close> denotes.\<close>

definition FACE_MATCHER_THRESHOLD :: rat where
  "FACE_MATCHER_THRESHOLD = 5404319552844595 / 2 ^ 53"

text \<open>The body of the \<^verbatim>\<open>try\<close> block of one attempt: \<open>Inl\<close> is the error it throws.\<close>

definition try_attempt :: "('i, 'd) env \<Rightarrow> jsval \<Rightarrow> nat \<Rightarrow> string + 'i" where
  "try_attempt env url attempt =
     (case fetch env url attempt of
        Inl msg \<Rightarrow> Inl msg
      | Inr resp \<Rightarrow>
          if \<not> ok resp then Inl (''HTTP error! status: '' @ show_nat (status resp))
          else decoded resp)"

text \<open>
  The \<^verbatim>\<open>for\<close> loop from the attempt \<open>attempt\<close> on. The result is what the promise
  settles to, \<open>Inl\<close> the message of the error thrown, \<open>Inr None\<close> the undefined
  that falls out of a loop that ran no attempt; with it the events in order. The
  \<^verbatim>\<open>catch\<close> block prints the URL in a template before anything else, which throws for a
  value that has no string.
\<close>

function loadImageWithRetry_from ::
  "('i, 'd) env \<Rightarrow> jsval \<Rightarrow> nat \<Rightarrow> nat \<Rightarrow> (string + 'i option) \<times> event list" where
  "loadImageWithRetry_from env url retries attempt =
     (if attempt \<le> retries then
        (case try_attempt env url attempt of
           Inr img \<Rightarrow> (Inr (Some img), [Fetch url attempt])
         | Inl msg \<Rightarrow>
             (case toString_js (numberToString env) url of
                None \<Rightarrow> (Inl cannot_convert, [Fetch url attempt])
              | Some u \<Rightarrow>
                  if attempt = retries then
                    (Inl (''Failed to load image after '' @ show_nat retries
                            @ '' attempts: '' @ msg),
                     [Fetch url attempt])
                  else
                    (case loadImageWithRetry_from env url retries (attempt + 1) of
                       (r, tr) \<Rightarrow> (r, Fetch url attempt # Delay (RETRY_DELAY * attempt) # tr))))
      else (Inr None, []))"
  by pat_completeness auto
termination
  by (relation "measure (\<lambda>(env, url, retries, attempt). retries + 1 - attempt)") auto

declare loadImageWithRetry_from.simps [simp del]

definition loadImageWithRetry ::
  "('i, 'd) env \<Rightarrow> jsval \<Rightarrow> nat \<Rightarrow> (string + 'i option) \<times> event list" where
  "loadImageWithRetry env url retries = loadImageWithRetry_from env url retries 1"

text \<open>The number of fetch attempts in a sequence of events.\<close>

fun is_fetch :: "event \<Rightarrow> bool" where
  "is_fetch (Fetch url k) = True"
| "is_fetch (LoadFromDisk n) = False"
| "is_fetch (Delay ms) = False"
| "is_fetch DetectSingleFace = False"
| "is_fetch DetectAllFaces = False"

definition fetch_count :: "event list \<Rightarrow> nat" where
  "fetch_count tr = length (filter is_fetch tr)"

section \<open>validateDatasetEntry\<close>

text \<open>
  Whether a string begins with a line terminator, which the dot of a regular expression
  does not match: LF, CR, and U+2028 and U+2029 in their UTF-8 bytes.
\<close>

fun line_terminator_first :: "string \<Rightarrow> bool" where
  "line_terminator_first [] = False"
| "line_terminator_first (c # cs) =
     (c = CHR 0x0A \<or> c = CHR 0x0D \<or>
      (c = CHR 0xE2 \<and> (take 2 cs = [CHR 0x80, CHR 0xA8] \<or> take 2 cs = [CHR 0x80, CHR 0xA9])))"

definition matches_after :: "string \<Rightarrow> string \<Rightarrow> bool" where
  "matches_after p s =
     (take (length p) s = p \<and> drop (length p) s \<noteq> [] \<and>
      \<not> line_terminator_first (drop (length p) s))"

text \<open>The test of \<^verbatim>\<open>/^https?:\/\/.+/\<close> on a string.\<close>

definition url_pattern_test :: "string \<Rightarrow> bool" where
  "url_pattern_test s = (matches_after ''http://'' s \<or> matches_after ''https://'' s)"

text \<open>
  \<open>Inr True\<close> is the return value, \<open>Inl\<close> the message of the error thrown. The test of
  the pattern converts \<^verbatim>\<open>entry.imglink\<close> to a string first.
\<close>

definition validateDatasetEntry :: "(rat \<Rightarrow> string) \<Rightarrow> jsval \<Rightarrow> string + bool" where
  "validateDatasetEntry nts entry =
     (if falsy entry \<or> typeof entry \<noteq> ''object'' then Inl ''Invalid dataset entry format''
      else if falsy (getProp entry ''id'') \<or> falsy (getProp entry ''imglink'')
        then Inl ''Missing required fields: id or imglink''
      else (case toString_js nts (getProp entry ''imglink'') of
              None \<Rightarrow> Inl cannot_convert
            | Some s \<Rightarrow>
                if \<not> url_pattern_test s then Inl ''Invalid image URL format'' else Inr True))"

section \<open>processSingleFace\<close>

definition destructure_error :: "string \<Rightarrow> string \<Rightarrow> jsval \<Rightarrow> string" where
  "destructure_error field obj v =
     ''Cannot destructure property '' @ [CHR 0x27] @ field @ [CHR 0x27] @ '' of ''
       @ [CHR 0x27] @ obj @ [CHR 0x27] @ '' as it is ''
       @ (if v = JNull then ''null'' else ''undefined'') @ ''.''"

text \<open>
  The body of the \<^verbatim>\<open>try\<close> block: validation, the log line (a template that converts
  \<open>id\<close> to a string), the fetch with retries, the detection, the label.
\<close>

definition processSingleFace_try ::
  "('i, 'd) env \<Rightarrow> jsval \<Rightarrow> jsval \<Rightarrow> jsval \<Rightarrow> (string + 'd labeled) \<times> event list" where
  "processSingleFace_try env data ident imglink =
     (case validateDatasetEntry (numberToString env) data of
        Inl msg \<Rightarrow> (Inl msg, [])
      | Inr v \<Rightarrow>
          (case toString_js (numberToString env) ident of
             None \<Rightarrow> (Inl cannot_convert, [])
           | Some shown \<Rightarrow>
               (case loadImageWithRetry env imglink MAX_RETRIES of
                  (Inl msg, tr) \<Rightarrow> (Inl msg, tr)
                | (Inr img, tr) \<Rightarrow>
                    (case detectSingleFace env img of
                       Inl msg \<Rightarrow> (Inl msg, tr @ [DetectSingleFace])
                     | Inr None \<Rightarrow> (Inl ''No face detected in image'', tr @ [DetectSingleFace])
                     | Inr (Some d) \<Rightarrow>
                         (case toString_js (numberToString env) ident of
                            None \<Rightarrow> (Inl ''id.toString is not a function'', tr @ [DetectSingleFace])
                          | Some l \<Rightarrow>
                              (Inr \<lparr> label = l, descriptors = [d] \<rparr>,
                               tr @ [DetectSingleFace]))))))"

text \<open>
  The promise of one entry: \<open>Inr (Some l)\<close> when it resolves to a labelled descriptor,
  \<open>Inr None\<close> when it resolves to null, \<open>Inl msg\<close> when it rejects. The destructuring of
  \<open>data\<close> stands before the \<^verbatim>\<open>try\<close>; the \<^verbatim>\<open>catch\<close> block prints \<open>id\<close> in a
  template before it returns null.
\<close>

definition processSingleFace ::
  "('i, 'd) env \<Rightarrow> jsval \<Rightarrow> (string + 'd labeled option) \<times> event list" where
  "processSingleFace env data =
     (if nullish data then (Inl (destructure_error ''id'' ''data'' data), [])
      else
        (case processSingleFace_try env data (getProp data ''id'') (getProp data ''imglink'') of
           (Inr l, tr) \<Rightarrow> (Inr (Some l), tr)
         | (Inl msg, tr) \<Rightarrow>
             (case toString_js (numberToString env) (getProp data ''id'') of
                None \<Rightarrow> (Inl cannot_convert, tr)
              | Some shown \<Rightarrow> (Inr None, tr))))"

section \<open>loadLabeledImages\<close>

text \<open>
  \<^verbatim>\<open>Promise.all\<close> rejects with the first rejection. Every rejection of
  \<open>processSingleFace\<close> happens before its first \<^verbatim>\<open>await\<close>, so the first one in time is
  the first one of the array.
\<close>

fun first_rejection :: "(string + 'a) list \<Rightarrow> string option" where
  "first_rejection [] = None"
| "first_rejection (Inl msg # rs) = Some msg"
| "first_rejection (Inr v # rs) = first_rejection rs"

fun resolved_values :: "(string + 'a) list \<Rightarrow> 'a list" where
  "resolved_values [] = []"
| "resolved_values (Inl msg # rs) = resolved_values rs"
| "resolved_values (Inr v # rs) = v # resolved_values rs"

text \<open>\<^verbatim>\<open>filter((desc) => desc !== null)\<close>\<close>

fun not_null :: "'a option list \<Rightarrow> 'a list" where
  "not_null [] = []"
| "not_null (None # xs) = not_null xs"
| "not_null (Some x # xs) = x # not_null xs"

text \<open>
  The entries run concurrently; the events of the model list them entry by entry, in the
  order of the array.
\<close>

definition loadLabeledImages ::
  "('i, 'd) env \<Rightarrow> jsval list \<Rightarrow> (string + 'd labeled list) \<times> event list" where
  "loadLabeledImages env dataset =
     (let promises = map (processSingleFace env) dataset;
          tr = concat (map snd promises)
      in case first_rejection (map fst promises) of
           Some msg \<Rightarrow> (Inl msg, tr)
         | None \<Rightarrow>
             (let validDescriptors = not_null (resolved_values (map fst promises))
              in if length validDescriptors = 0
                 then (Inl ''No valid face descriptors could be generated from the dataset'', tr)
                 else (Inr validDescriptors, tr)))"

section \<open>initializeModels\<close>

fun first_failure :: "string option list \<Rightarrow> string option" where
  "first_failure [] = None"
| "first_failure (Some msg # rs) = Some msg"
| "first_failure (None # rs) = first_failure rs"

text \<open>
  The three loads are started together; when several of them reject, the model takes the
  message of the first one of the array.
\<close>

definition initializeModels :: "('i, 'd) env \<Rightarrow> (string + unit) \<times> event list" where
  "initializeModels env =
     (let nets = [FaceRecognitionNet, FaceLandmark68Net, SsdMobilenetv1]
      in case first_failure (map (loadFromDisk env) nets) of
           Some msg \<Rightarrow> (Inl (''Failed to load face recognition models: '' @ msg),
                        map LoadFromDisk nets)
         | None \<Rightarrow> (Inr (), map LoadFromDisk nets))"

section \<open>Arithmetic in doubles\<close>

text \<open>
  A JavaScript number is an IEEE 754 binary64 value, and every arithmetic operation
  rounds its exact result to the nearest one, a tie to the one with the even
  significand. A finite double is modelled by its exact rational value.
\<close>

definition pow2 :: "int \<Rightarrow> rat" where
  "pow2 k = (if 0 \<le> k then 2 ^ nat k else 1 / 2 ^ nat (- k))"

text \<open>How often a number from 2 on is halved before it is below 2.\<close>

function log2_up :: "rat \<Rightarrow> nat" where
  "log2_up x = (if x < 2 then 0 else Suc (log2_up (x / 2)))"
  by pat_completeness auto
termination
proof (relation "measure (\<lambda>x. nat \<lfloor>x\<rfloor>)")
  show "wf (measure (\<lambda>x::rat. nat \<lfloor>x\<rfloor>))"
    by simp
next
  fix x :: rat
  assume "\<not> x < 2"
  define n where "n = \<lfloor>x\<rfloor>"
  have n: "2 \<le> n"
    using \<open>\<not> x < 2\<close> by (simp add: n_def le_floor_iff)
  then have r: "(2::rat) \<le> of_int n"
    by (metis of_int_le_iff of_int_numeral)
  have "x < of_int n + 1"
    unfolding n_def by linarith
  with r have "x / 2 < of_int n"
    by linarith
  then have "\<lfloor>x / 2\<rfloor> < n"
    by (simp only: floor_less_iff)
  with n have "nat \<lfloor>x / 2\<rfloor> < nat n"
    by linarith
  then have "nat \<lfloor>x / 2\<rfloor> < nat \<lfloor>x\<rfloor>"
    by (simp only: n_def)
  then show "(x / 2, x) \<in> measure (\<lambda>x. nat \<lfloor>x\<rfloor>)"
    by (simp only: in_measure)
qed

declare log2_up.simps [simp del]

text \<open>How often a positive number below 1 is doubled before it is 1 or more.\<close>

function log2_down :: "rat \<Rightarrow> nat" where
  "log2_down x = (if x \<le> 0 \<or> 1 \<le> x then 0 else Suc (log2_down (x * 2)))"
  by pat_completeness auto
termination
proof (relation "measure (\<lambda>x. nat \<lceil>1 / x\<rceil>)")
  show "wf (measure (\<lambda>x::rat. nat \<lceil>1 / x\<rceil>))"
    by simp
next
  fix x :: rat
  assume "\<not> (x \<le> 0 \<or> 1 \<le> x)"
  then have x: "0 < x" "x < 1"
    by simp_all
  define c where "c = \<lceil>1 / x\<rceil>"
  have "1 < 1 / x"
    using x by simp
  then have c: "2 \<le> c"
    by (simp add: c_def le_ceiling_iff)
  then have r: "(2::rat) \<le> of_int c"
    by (metis of_int_le_iff of_int_numeral)
  have "1 / x \<le> of_int c"
    unfolding c_def by linarith
  moreover have "2 \<le> r \<Longrightarrow> y \<le> r \<Longrightarrow> y / 2 \<le> r - 1" for y r :: rat
    by linarith
  ultimately have "1 / x / 2 \<le> of_int c - 1"
    using r by blast
  then have "\<lceil>1 / x / 2\<rceil> < c"
    by (simp only: ceiling_less_iff)
  with c have "nat \<lceil>1 / x / 2\<rceil> < nat c"
    by linarith
  moreover have "1 / (x * 2) = 1 / x / 2"
    by simp
  ultimately have "nat \<lceil>1 / (x * 2)\<rceil> < nat \<lceil>1 / x\<rceil>"
    by (simp only: c_def)
  then show "(x * 2, x) \<in> measure (\<lambda>x. nat \<lceil>1 / x\<rceil>)"
    by (simp only: in_measure)
qed

declare log2_down.simps [simp del]

text \<open>The binary exponent of a positive number: \<open>2^e \<le> x < 2^(e + 1)\<close>.\<close>

definition exponent :: "rat \<Rightarrow> int" where
  "exponent x = (if 1 \<le> x then int (log2_up x) else - int (log2_down x))"

text \<open>The nearest integer, a tie going to the even one.\<close>

definition round_even :: "rat \<Rightarrow> int" where
  "round_even y =
     (let f = \<lfloor>y\<rfloor>;
          r = y - of_int f
      in if r < 1 / 2 then f
         else if 1 / 2 < r then f + 1
         else if even f then f else f + 1)"

text \<open>
  The exponent of the last bit of the significand of the doubles around \<open>x\<close>: 52 bits
  below the leading one, and never below the one of the subnormal numbers.
\<close>

definition quantum :: "rat \<Rightarrow> int" where
  "quantum x = max (exponent \<bar>x\<bar> - 52) (- 1074)"

text \<open>The rounded magnitude from which a result is an infinity.\<close>

definition double_overflow :: rat where
  "double_overflow = 2 ^ 1024"

text \<open>
  The double nearest to an exact result; \<open>None\<close> when the result overflows to an
  infinity (of the sign of \<open>x\<close>).
\<close>

definition to_double :: "rat \<Rightarrow> rat option" where
  "to_double x =
     (if x = 0 then Some 0
      else
        (let q = quantum x;
             v = of_int (round_even (\<bar>x\<bar> / pow2 q)) * pow2 q
         in if double_overflow \<le> v then None
            else Some (if x < 0 then - v else v)))"

section \<open>The confidence of a match\<close>

text \<open>
  \<^verbatim>\<open>Number.prototype.toFixed(2)\<close> on a finite number, after ECMAScript: the sign, then the
  integer \<open>n\<close> nearest to a hundred times the magnitude (the larger one of two), printed
  with at least three digits and a point before the last two. A magnitude of
  \<open>10^21\<close> or more prints as the number itself does.
\<close>

definition toFixed2 :: "(rat \<Rightarrow> string) \<Rightarrow> rat \<Rightarrow> string" where
  "toFixed2 nts x =
     (let s = (if x < 0 then ''-'' else []);
          y = \<bar>x\<bar>
      in if y \<ge> 10 ^ 21 then s @ nts y
         else
           (let n = nat \<lfloor>y * 100 + 1 / 2\<rfloor>;
                m = show_nat n;
                padded = (if length m \<le> 2 then replicate (3 - length m) (CHR ''0'') @ m else m);
                k = length padded
            in s @ take (k - 2) padded @ ''.'' @ drop (k - 2) padded))"

text \<open>
  The number \<^verbatim>\<open>(1 - result.distance) * 100\<close>: the difference rounded to a double, then
  its product with 100 rounded to a double; \<open>None\<close> when one of them is infinite.
\<close>

definition confidence_number :: "rat \<Rightarrow> rat option" where
  "confidence_number distance =
     (case to_double (1 - distance) of
        None \<Rightarrow> None
      | Some difference \<Rightarrow> to_double (difference * 100))"

text \<open>
  The confidence of a match at the distance \<open>distance\<close>. \<^verbatim>\<open>toFixed\<close> prints an
  infinity by its name.
\<close>

definition confidence :: "(rat \<Rightarrow> string) \<Rightarrow> rat \<Rightarrow> string" where
  "confidence nts distance =
     (case confidence_number distance of
        None \<Rightarrow> (if 1 - distance < 0 then ''-Infinity'' else ''Infinity'') @ ''%''
      | Some x \<Rightarrow> toFixed2 nts x @ ''%'')"

section \<open>Reading a confidence string\<close>

text \<open>
  What a confidence string reads as: the decimal literal at the head of a string, as
  \<^verbatim>\<open>parseFloat\<close> reads it (an optional minus sign, digits, and digits after a point);
  the percent sign after it is not read.
\<close>

definition is_digit :: "char \<Rightarrow> bool" where
  "is_digit c = (48 \<le> (of_char c :: nat) \<and> (of_char c :: nat) \<le> 57)"

definition digit_val :: "char \<Rightarrow> nat" where
  "digit_val c = of_char c - 48"

definition digits_value :: "string \<Rightarrow> nat" where
  "digits_value cs = foldl (\<lambda>a c. 10 * a + digit_val c) 0 cs"

definition parse_number :: "string \<Rightarrow> rat option" where
  "parse_number s =
     (let neg = (s \<noteq> [] \<and> hd s = CHR ''-'');
          unsigned = (if neg then tl s else s);
          ip = takeWhile is_digit unsigned;
          r = dropWhile is_digit unsigned;
          fp = (if r \<noteq> [] \<and> hd r = CHR ''.'' then takeWhile is_digit (tl r) else []);
          v = of_nat (digits_value ip) + of_nat (digits_value fp) / 10 ^ length fp
      in if ip = [] then None else Some (if neg then - v else v))"

text \<open>Rounding to two decimals: the nearest hundredth, a half away from zero.\<close>

definition round2 :: "rat \<Rightarrow> rat" where
  "round2 x = (if x < 0 then - 1 else 1) * of_int \<lfloor>\<bar>x\<bar> * 100 + 1 / 2\<rfloor> / 100"

text \<open>The digits that \<open>toFixed2\<close> prints for the integer \<open>n\<close> of hundredths.\<close>

definition fixed_digits :: "nat \<Rightarrow> string" where
  "fixed_digits n =
     (let m = show_nat n;
          padded = (if length m \<le> 2 then replicate (3 - length m) (CHR ''0'') @ m else m);
          k = length padded
      in take (k - 2) padded @ ''.'' @ drop (k - 2) padded)"

section \<open>The handler of POST /\<close>

record reply =
  statusCode :: nat
  jsonBody :: jsval

definition internal_error :: "('i, 'd) env \<Rightarrow> string \<Rightarrow> reply" where
  "internal_error env msg =
     \<lparr> statusCode = 500,
       jsonBody = JObj [(''error'', JStr ''Internal server error''),
                        (''message'', JStr msg),
                        (''stack'', if development env then JStr (stackOf env msg) else JUndefined)] \<rparr>"

definition match_json :: "(rat \<Rightarrow> string) \<Rightarrow> string \<times> rat \<Rightarrow> jsval" where
  "match_json nts result =
     JObj [(''label'', JStr (fst result)),
           (''distance'', JNum (snd result)),
           (''confidence'', JStr (confidence nts (snd result)))]"

text \<open>The two checks of the input validation.\<close>

definition invalid_dataset :: "jsval \<Rightarrow> bool" where
  "invalid_dataset dataset =
     (falsy dataset \<or> \<not> isArray dataset \<or> length (elements dataset) = 0)"

definition invalid_group_img :: "jsval \<Rightarrow> bool" where
  "invalid_group_img group_img = (falsy group_img \<or> typeof group_img \<noteq> ''string'')"

text \<open>
  The reply to a request with the parsed body \<open>body\<close>, and the events the request
  causes. Everything from the destructuring of the body on is inside the \<^verbatim>\<open>try\<close>, so
  every error thrown becomes the reply 500.
\<close>

definition handler :: "('i, 'd) env \<Rightarrow> jsval \<Rightarrow> reply \<times> event list" where
  "handler env body =
     (if nullish body
      then (internal_error env (destructure_error ''dataset'' ''req.body'' body), [])
      else
        (let dataset = getProp body ''dataset'';
             group_img = getProp body ''group_img''
         in if invalid_dataset dataset
            then (\<lparr> statusCode = 400,
                     jsonBody = JObj [(''error'', JStr ''Invalid dataset format''),
                                      (''details'', JStr ''Dataset must be a non-empty array'')] \<rparr>,
                  [])
            else if invalid_group_img group_img
            then (\<lparr> statusCode = 400,
                     jsonBody = JObj [(''error'', JStr ''Invalid group_img''),
                                      (''details'', JStr ''group_img must be a valid URL string'')] \<rparr>,
                  [])
            else
              (case initializeModels env of
                 (Inl msg, t1) \<Rightarrow> (internal_error env msg, t1)
               | (Inr u, t1) \<Rightarrow>
                   (case loadLabeledImages env (elements dataset) of
                      (Inl msg, t2) \<Rightarrow> (internal_error env msg, t1 @ t2)
                    | (Inr labeledFaceDescriptors, t2) \<Rightarrow>
                        (case loadImageWithRetry env group_img MAX_RETRIES of
                           (Inl msg, t3) \<Rightarrow> (internal_error env msg, t1 @ t2 @ t3)
                         | (Inr img, t3) \<Rightarrow>
                             (case detectAllFaces env img of
                                Inl msg \<Rightarrow>
                                  (internal_error env msg, t1 @ t2 @ t3 @ [DetectAllFaces])
                              | Inr detections \<Rightarrow>
                                  if length detections = 0
                                  then (\<lparr> statusCode = 400,
                                           jsonBody = JObj [(''error'',
                                             JStr ''No faces detected in group image'')] \<rparr>,
                                        t1 @ t2 @ t3 @ [DetectAllFaces])
                                  else
                                    (let results =
                                           map (findBestMatch env labeledFaceDescriptors
                                                  FACE_MATCHER_THRESHOLD) detections
                                     in (\<lparr> statusCode = 200,
                                           jsonBody = JObj
                                             [(''success'', JBool True),
                                              (''totalFacesDetected'',
                                                 JNum (of_nat (length detections))),
                                              (''matches'',
                                                 JArr (map (match_json (numberToString env))
                                                         results))] \<rparr>,
                                         t1 @ t2 @ t3 @ [DetectAllFaces]))))))))"

section \<open>The handler of the second server file\<close>

text \<open>
  The second server file of the repository (\<^verbatim>\<open>unnamed/part_000\<close>) holds another
  handler of the same route, with a fetch without retries and a reply of its own for an
  empty reference set. An image is fetched once; the world answers it as a first attempt.
\<close>

definition loadImage :: "('i, 'd) env \<Rightarrow> jsval \<Rightarrow> (string + 'i) \<times> event list" where
  "loadImage env url =
     (case fetch env url 1 of
        Inl msg \<Rightarrow> (Inl msg, [Fetch url 1])
      | Inr resp \<Rightarrow>
          if \<not> ok resp then (Inl (''Failed to fetch image: '' @ statusText resp), [Fetch url 1])
          else (decoded resp, [Fetch url 1]))"

text \<open>The body of the \<^verbatim>\<open>try\<close> block of one entry; \<open>Inr None\<close> is its early return of null.\<close>

definition loadLabeledImages_try_part_000 ::
  "('i, 'd) env \<Rightarrow> jsval \<Rightarrow> jsval \<Rightarrow> (string + 'd labeled option) \<times> event list" where
  "loadLabeledImages_try_part_000 env ident imglink =
     (case toString_js (numberToString env) ident of
        None \<Rightarrow> (Inl cannot_convert, [])
      | Some shown \<Rightarrow>
          (case loadImage env imglink of
             (Inl msg, tr) \<Rightarrow> (Inl msg, tr)
           | (Inr img, tr) \<Rightarrow>
               (case detectSingleFace env (Some img) of
                  Inl msg \<Rightarrow> (Inl msg, tr @ [DetectSingleFace])
                | Inr None \<Rightarrow> (Inr None, tr @ [DetectSingleFace])
                | Inr (Some d) \<Rightarrow>
                    (case toString_js (numberToString env) ident of
                       None \<Rightarrow> (Inl ''id.toString is not a function'', tr @ [DetectSingleFace])
                     | Some l \<Rightarrow>
                         (Inr (Some \<lparr> label = l, descriptors = [d] \<rparr>),
                          tr @ [DetectSingleFace])))))"

text \<open>The promise of one entry, as in \<open>processSingleFace\<close>.\<close>

definition loadLabeledImages_entry_part_000 ::
  "('i, 'd) env \<Rightarrow> jsval \<Rightarrow> (string + 'd labeled option) \<times> event list" where
  "loadLabeledImages_entry_part_000 env data =
     (if nullish data then (Inl (destructure_error ''id'' ''data'' data), [])
      else if falsy (getProp data ''id'') \<or> falsy (getProp data ''imglink'') then (Inr None, [])
      else
        (case loadLabeledImages_try_part_000 env (getProp data ''id'') (getProp data ''imglink'') of
           (Inr v, tr) \<Rightarrow> (Inr v, tr)
         | (Inl msg, tr) \<Rightarrow>
             (case toString_js (numberToString env) (getProp data ''id'') of
                None \<Rightarrow> (Inl cannot_convert, tr)
              | Some shown \<Rightarrow> (Inr None, tr))))"

definition loadLabeledImages_part_000 ::
  "('i, 'd) env \<Rightarrow> jsval list \<Rightarrow> (string + 'd labeled list) \<times> event list" where
  "loadLabeledImages_part_000 env dataset =
     (let promises = map (loadLabeledImages_entry_part_000 env) dataset;
          tr = concat (map snd promises)
      in case first_rejection (map fst promises) of
           Some msg \<Rightarrow> (Inl msg, tr)
         | None \<Rightarrow> (Inr (not_null (resolved_values (map fst promises))), tr))"

definition handler_part_000 :: "('i, 'd) env \<Rightarrow> jsval \<Rightarrow> reply \<times> event list" where
  "handler_part_000 env body =
     (if nullish body
      then (\<lparr> statusCode = 500,
               jsonBody = JObj [(''error'', JStr ''Internal server error''),
                                (''message'',
                                   JStr (destructure_error ''dataset'' ''req.body'' body))] \<rparr>,
            [])
      else
        (let dataset = getProp body ''dataset'';
             group_img = getProp body ''group_img'';
             nets = [FaceRecognitionNet, FaceLandmark68Net, SsdMobilenetv1];
             t1 = map LoadFromDisk nets
         in if falsy dataset \<or> \<not> isArray dataset
            then (\<lparr> statusCode = 400,
                     jsonBody = JObj [(''error'', JStr ''Invalid dataset format''),
                                      (''received'', dataset)] \<rparr>,
                  [])
            else if falsy group_img
            then (\<lparr> statusCode = 400,
                     jsonBody = JObj [(''error'', JStr ''Missing group_img'')] \<rparr>,
                  [])
            else
              (case first_failure (map (loadFromDisk env) nets) of
                 Some msg \<Rightarrow>
                   (\<lparr> statusCode = 500,
                       jsonBody = JObj [(''error'', JStr ''Failed to load face recognition models''),
                                        (''message'', JStr msg)] \<rparr>,
                    t1)
               | None \<Rightarrow>
                   (case loadLabeledImages_part_000 env (elements dataset) of
                      (Inl msg, t2) \<Rightarrow>
                        (\<lparr> statusCode = 500,
                            jsonBody = JObj [(''error'', JStr ''Internal server error''),
                                             (''message'', JStr msg)] \<rparr>,
                         t1 @ t2)
                    | (Inr labeledFaceDescriptors, t2) \<Rightarrow>
                        if length labeledFaceDescriptors = 0
                        then (\<lparr> statusCode = 400,
                                 jsonBody = JObj [(''error'', JStr
                                   ''No valid face descriptors could be generated from the dataset'')] \<rparr>,
                              t1 @ t2)
                        else
                          (case loadImage env group_img of
                             (Inl msg, t3) \<Rightarrow>
                               (\<lparr> statusCode = 500,
                                   jsonBody = JObj [(''error'', JStr ''Failed to process group image''),
                                                    (''message'', JStr msg)] \<rparr>,
                                t1 @ t2 @ t3)
                           | (Inr img, t3) \<Rightarrow>
                               (case detectAllFaces env (Some img) of
                                  Inl msg \<Rightarrow>
                                    (\<lparr> statusCode = 500,
                                        jsonBody = JObj
                                          [(''error'', JStr ''Failed to process group image''),
                                           (''message'', JStr msg)] \<rparr>,
                                     t1 @ t2 @ t3 @ [DetectAllFaces])
                                | Inr detections \<Rightarrow>
                                    (\<lparr> statusCode = 200,
                                        jsonBody = JObj
                                          [(''success'', JBool True),
                                           (''matches'',
                                              JArr (map (\<lambda>result.
                                                      JObj [(''label'', JStr (fst result)),
                                                            (''distance'', JNum (snd result))])
                                                    (map (findBestMatch env labeledFaceDescriptors
                                                            (5404319552844595 / 2 ^ 53)) detections)))] \<rparr>,
                                     t1 @ t2 @ t3 @ [DetectAllFaces])))))))"

section \<open>The server\<close>

text \<open>
  The module starts the server with \<^verbatim>\<open>app.listen\<close> and loads nothing before it; the
  events of a run are those of the requests it handles.
\<close>

definition startup_events :: "event list" where
  "startup_events = []"

definition server_events :: "('i, 'd) env \<Rightarrow> jsval list \<Rightarrow> event list" where
  "server_events env bodies = startup_events @ concat (map (\<lambda>body. snd (handler env body)) bodies)"

section \<open>A concrete world\<close>

text \<open>
  A world to evaluate the code in. An image is the number of faces on it, a descriptor
  is a number, and the distance of a face to the first reference is a quarter of its
  descriptor: the two faces of the group image are at the distances 1/2 and 3/2. The
  matcher answers the label of the first reference below the threshold and
  \<^verbatim>\<open>unknown\<close> from it on. One URL rejects the first attempt, is answered 503 at the
  second and answers at the third; one is answered with the status 404; one answers
  bytes that are no image; one holds an image without a face; an unknown host rejects
  every attempt. Integers print as JavaScript prints them (below \<open>10^21\<close>); the
  datasets evaluated here hold no other number.
\<close>

definition world_fetch :: "jsval \<Rightarrow> nat \<Rightarrow> string + nat response" where
  "world_fetch url k =
     (if url = JStr ''http://img/alice.jpg'' then
        Inr \<lparr> ok = True, status = 200, statusText = ''OK'', decoded = Inr 1 \<rparr>
      else if url = JStr ''http://img/flaky.jpg'' then
        (if k = 1 then Inl ''socket hang up''
         else if k = 2 then
           Inr \<lparr> ok = False, status = 503, statusText = ''Service Unavailable'',
                 decoded = Inl ''no body'' \<rparr>
         else Inr \<lparr> ok = True, status = 200, statusText = ''OK'', decoded = Inr 1 \<rparr>)
      else if url = JStr ''http://img/broken.jpg'' then
        Inr \<lparr> ok = True, status = 200, statusText = ''OK'',
              decoded = Inl ''Unsupported image type'' \<rparr>
      else if url = JStr ''http://img/empty.jpg'' then
        Inr \<lparr> ok = True, status = 200, statusText = ''OK'', decoded = Inr 0 \<rparr>
      else if url = JStr ''http://img/group.jpg'' then
        Inr \<lparr> ok = True, status = 200, statusText = ''OK'', decoded = Inr 2 \<rparr>
      else if url = JStr ''http://img/gone.jpg'' then
        Inr \<lparr> ok = False, status = 404, statusText = ''Not Found'',
              decoded = Inl ''no body'' \<rparr>
      else Inl ''getaddrinfo ENOTFOUND'')"

definition world :: "(nat, nat) env" where
  "world =
     \<lparr> numberToString =
         (\<lambda>r. if r = of_int \<lfloor>r\<rfloor>
              then (if r < 0 then ''-'' else []) @ show_nat (nat \<bar>\<lfloor>r\<rfloor>\<bar>)
              else ''#''),
       fetch = world_fetch,
       loadFromDisk = (\<lambda>n. None),
       detectSingleFace =
         (\<lambda>i. case i of
                None \<Rightarrow> Inl ''no input''
              | Some n \<Rightarrow> Inr (if n = 0 then None else Some (10 * n))),
       detectAllFaces =
         (\<lambda>i. case i of
                None \<Rightarrow> Inl ''no input''
              | Some n \<Rightarrow> Inr (map (\<lambda>k. 4 * k + 2) [0..<n])),
       findBestMatch =
         (\<lambda>refs t d.
            (if of_nat d / 4 < t
             then (case refs of [] \<Rightarrow> ''unknown'' | r # rs \<Rightarrow> label r)
             else ''unknown'',
             of_nat d / 4)),
       development = False,
       stackOf = (\<lambda>msg. msg) \<rparr>"

text \<open>A dataset entry and a request body, as the client sends them.\<close>

definition entry :: "rat \<Rightarrow> string \<Rightarrow> jsval" where
  "entry i url = JObj [(''id'', JNum i), (''imglink'', JStr url)]"

definition request :: "jsval list \<Rightarrow> string \<Rightarrow> jsval" where
  "request ds g = JObj [(''dataset'', JArr ds), (''group_img'', JStr g)]"

text \<open>The same world with one model file missing from the disk.\<close>

definition broken_disk :: "(nat, nat) env" where
  "broken_disk = world \<lparr> loadFromDisk :=
     (\<lambda>n. if n = FaceLandmark68Net then Some ''ENOENT: no such file or directory'' else None) \<rparr>"

text \<open>Whether the string \<open>u\<close> occurs in a string.\<close>

fun occurs_in :: "string \<Rightarrow> string \<Rightarrow> bool" where
  "occurs_in u [] = (u = [])"
| "occurs_in u (c # cs) = (take (length u) (c # cs) = u \<or> occurs_in u cs)"

section \<open>The retry loop\<close>

lemma loadImageWithRetry_from_bound:
  "fetch_count (snd (loadImageWithRetry_from env url retries attempt)) \<le> retries + 1 - attempt"
proof (induction env url retries attempt rule: loadImageWithRetry_from.induct)
  case (1 env url retries attempt)
  note eq = loadImageWithRetry_from.simps [of env url retries attempt]
  show ?case
  proof (cases "attempt \<le> retries")
    case False
    then show ?thesis
      unfolding eq by (simp add: fetch_count_def)
  next
    case True
    show ?thesis
    proof (cases "try_attempt env url attempt")
      case (Inr img)
      with True show ?thesis
        unfolding eq by (simp add: fetch_count_def)
    next
      case (Inl msg)
      show ?thesis
      proof (cases "toString_js (numberToString env) url")
        case None
        with True Inl show ?thesis
          unfolding eq by (simp add: fetch_count_def)
      next
        case (Some shown)
        show ?thesis
        proof (cases "attempt = retries")
          case True
          with Inl Some show ?thesis
            unfolding eq by (simp add: fetch_count_def)
        next
          case False
          with True Inl Some "1.IH" [OF True Inl Some False]
          show ?thesis
            unfolding eq by (simp add: fetch_count_def case_prod_beta)
        qed
      qed
    qed
  qed
qed

lemma loadImageWithRetry_from_success:
  assumes "toString_js (numberToString env) url \<noteq> None"
    and "attempt \<le> k" and "k \<le> retries"
    and "\<forall>j. attempt \<le> j \<and> j < k \<longrightarrow> isl (try_attempt env url j)"
    and "try_attempt env url k = Inr img"
  shows "fst (loadImageWithRetry_from env url retries attempt) = Inr (Some img) \<and>
         filter is_fetch (snd (loadImageWithRetry_from env url retries attempt))
           = map (Fetch url) [attempt..<Suc k]"
  using assms
proof (induction env url retries attempt rule: loadImageWithRetry_from.induct)
  case (1 env url retries attempt)
  note eq = loadImageWithRetry_from.simps [of env url retries attempt]
  from "1.prems" have le: "attempt \<le> retries" by simp
  from "1.prems"(1) obtain shown where sh: "toString_js (numberToString env) url = Some shown"
    by auto
  show ?case
  proof (cases "attempt = k")
    case True
    with "1.prems" le show ?thesis
      unfolding eq by (simp add: upt_rec)
  next
    case False
    with "1.prems" have lt: "attempt < k" by simp
    with "1.prems" have "isl (try_attempt env url attempt)" by simp
    then obtain msg where msg: "try_attempt env url attempt = Inl msg"
      by (cases "try_attempt env url attempt") auto
    from lt "1.prems" have ne: "attempt \<noteq> retries" by simp
    have ih: "fst (loadImageWithRetry_from env url retries (attempt + 1)) = Inr (Some img) \<and>
         filter is_fetch (snd (loadImageWithRetry_from env url retries (attempt + 1)))
           = map (Fetch url) [attempt + 1..<Suc k]"
      using "1.IH" [OF le msg sh ne] "1.prems" lt by simp
    from lt have upt: "[attempt..<Suc k] = attempt # [attempt + 1..<Suc k]"
      by (simp add: upt_rec)
    from le msg sh ne ih show ?thesis
      unfolding eq upt by (simp add: case_prod_beta)
  qed
qed

lemma loadImageWithRetry_from_exhaust:
  assumes "toString_js (numberToString env) url \<noteq> None"
    and "attempt \<le> retries"
    and "\<forall>j. attempt \<le> j \<and> j \<le> retries \<longrightarrow> isl (try_attempt env url j)"
  shows "fst (loadImageWithRetry_from env url retries attempt)
           = Inl (''Failed to load image after '' @ show_nat retries @ '' attempts: ''
                  @ projl (try_attempt env url retries)) \<and>
         filter is_fetch (snd (loadImageWithRetry_from env url retries attempt))
           = map (Fetch url) [attempt..<Suc retries]"
  using assms
proof (induction env url retries attempt rule: loadImageWithRetry_from.induct)
  case (1 env url retries attempt)
  note eq = loadImageWithRetry_from.simps [of env url retries attempt]
  from "1.prems" have le: "attempt \<le> retries" by simp
  from "1.prems"(1) obtain shown where sh: "toString_js (numberToString env) url = Some shown"
    by auto
  from "1.prems" have "isl (try_attempt env url attempt)" by simp
  then obtain msg where msg: "try_attempt env url attempt = Inl msg"
    by (cases "try_attempt env url attempt") auto
  show ?case
  proof (cases "attempt = retries")
    case True
    with msg sh show ?thesis
      unfolding eq by (simp add: upt_rec)
  next
    case False
    have ih: "fst (loadImageWithRetry_from env url retries (attempt + 1))
           = Inl (''Failed to load image after '' @ show_nat retries @ '' attempts: ''
                  @ projl (try_attempt env url retries)) \<and>
         filter is_fetch (snd (loadImageWithRetry_from env url retries (attempt + 1)))
           = map (Fetch url) [attempt + 1..<Suc retries]"
      using "1.IH" [OF le msg sh False] "1.prems" False by simp
    from le have upt: "[attempt..<Suc retries] = attempt # [attempt + 1..<Suc retries]"
      by (simp add: upt_rec)
    from le msg sh False ih show ?thesis
      unfolding eq upt by (simp add: case_prod_beta)
  qed
qed

section \<open>Claims about loadImageWithRetry\<close>

text \<open>
  An attempt succeeds when the fetch answers, the response is ok and its bytes decode;
  it fails otherwise.
\<close>

lemma try_attempt_succeeds:
  "try_attempt env url j = Inr img \<longleftrightarrow>
   (\<exists>resp. fetch env url j = Inr resp \<and> ok resp \<and> decoded resp = Inr img)"
  by (auto simp: try_attempt_def split: sum.splits)

lemma try_attempt_fails:
  "isl (try_attempt env url j) \<longleftrightarrow>
   \<not> (\<exists>resp img. fetch env url j = Inr resp \<and> ok resp \<and> decoded resp = Inr img)"
proof (cases "fetch env url j")
  case (Inl msg)
  then show ?thesis
    by (simp add: try_attempt_def)
next
  case (Inr resp)
  then show ?thesis
    by (cases "decoded resp") (simp_all add: try_attempt_def)
qed

text \<open>
  C4. For every URL, \<^verbatim>\<open>loadImageWithRetry\<close> makes at most \<open>MAX_RETRIES\<close> fetch
  attempts. If the attempt \<open>k\<close> among them is the first to succeed (the fetch answers,
  the response is ok and its bytes decode), the image of that attempt is returned after
  exactly the attempts \<open>1, \<dots>, k\<close> (so a URL that fails twice and then succeeds
  returns the image on the third attempt). If all of them fail, exactly
  \<open>MAX_RETRIES\<close> attempts are made and an error is raised.
\<close>

theorem loadImageWithRetry_attempts:
  "fetch_count (snd (loadImageWithRetry env (JStr u) MAX_RETRIES)) \<le> MAX_RETRIES \<and>
   (1 \<le> k \<and> k \<le> MAX_RETRIES \<and>
    (\<forall>j. 1 \<le> j \<and> j < k \<longrightarrow>
       \<not> (\<exists>resp i. fetch env (JStr u) j = Inr resp \<and> ok resp \<and> decoded resp = Inr i)) \<and>
    (\<exists>resp. fetch env (JStr u) k = Inr resp \<and> ok resp \<and> decoded resp = Inr img) \<longrightarrow>
      fst (loadImageWithRetry env (JStr u) MAX_RETRIES) = Inr (Some img) \<and>
      fetch_count (snd (loadImageWithRetry env (JStr u) MAX_RETRIES)) = k \<and>
      filter is_fetch (snd (loadImageWithRetry env (JStr u) MAX_RETRIES))
        = map (Fetch (JStr u)) [1..<Suc k]) \<and>
   ((\<forall>j. 1 \<le> j \<and> j \<le> MAX_RETRIES \<longrightarrow>
       \<not> (\<exists>resp i. fetch env (JStr u) j = Inr resp \<and> ok resp \<and> decoded resp = Inr i)) \<longrightarrow>
      isl (fst (loadImageWithRetry env (JStr u) MAX_RETRIES)) \<and>
      fetch_count (snd (loadImageWithRetry env (JStr u) MAX_RETRIES)) = MAX_RETRIES \<and>
      filter is_fetch (snd (loadImageWithRetry env (JStr u) MAX_RETRIES))
        = map (Fetch (JStr u)) [1..<Suc MAX_RETRIES])"
proof (intro conjI impI)
  show "fetch_count (snd (loadImageWithRetry env (JStr u) MAX_RETRIES)) \<le> MAX_RETRIES"
    using loadImageWithRetry_from_bound [of env "JStr u" MAX_RETRIES 1]
    by (simp add: loadImageWithRetry_def)
next
  assume h: "1 \<le> k \<and> k \<le> MAX_RETRIES \<and>
    (\<forall>j. 1 \<le> j \<and> j < k \<longrightarrow>
       \<not> (\<exists>resp i. fetch env (JStr u) j = Inr resp \<and> ok resp \<and> decoded resp = Inr i)) \<and>
    (\<exists>resp. fetch env (JStr u) k = Inr resp \<and> ok resp \<and> decoded resp = Inr img)"
  then have f: "\<forall>j. 1 \<le> j \<and> j < k \<longrightarrow> isl (try_attempt env (JStr u) j)"
    by (simp add: try_attempt_fails)
  from h have t: "try_attempt env (JStr u) k = Inr img"
    by (simp add: try_attempt_succeeds)
  have s: "fst (loadImageWithRetry_from env (JStr u) MAX_RETRIES 1) = Inr (Some img) \<and>
      filter is_fetch (snd (loadImageWithRetry_from env (JStr u) MAX_RETRIES 1))
        = map (Fetch (JStr u)) [1..<Suc k]"
    using h f t by (intro loadImageWithRetry_from_success) simp_all
  from s show "fst (loadImageWithRetry env (JStr u) MAX_RETRIES) = Inr (Some img)"
    by (simp add: loadImageWithRetry_def)
  from s show "filter is_fetch (snd (loadImageWithRetry env (JStr u) MAX_RETRIES))
        = map (Fetch (JStr u)) [1..<Suc k]"
    by (simp add: loadImageWithRetry_def)
  from s show "fetch_count (snd (loadImageWithRetry env (JStr u) MAX_RETRIES)) = k"
    by (simp add: loadImageWithRetry_def fetch_count_def)
next
  assume "\<forall>j. 1 \<le> j \<and> j \<le> MAX_RETRIES \<longrightarrow>
       \<not> (\<exists>resp i. fetch env (JStr u) j = Inr resp \<and> ok resp \<and> decoded resp = Inr i)"
  then have h: "\<forall>j. 1 \<le> j \<and> j \<le> MAX_RETRIES \<longrightarrow> isl (try_attempt env (JStr u) j)"
    by (simp add: try_attempt_fails)
  have s: "fst (loadImageWithRetry_from env (JStr u) MAX_RETRIES 1)
           = Inl (''Failed to load image after '' @ show_nat MAX_RETRIES @ '' attempts: ''
                  @ projl (try_attempt env (JStr u) MAX_RETRIES)) \<and>
      filter is_fetch (snd (loadImageWithRetry_from env (JStr u) MAX_RETRIES 1))
        = map (Fetch (JStr u)) [1..<Suc MAX_RETRIES]"
    using h by (intro loadImageWithRetry_from_exhaust) (simp_all add: MAX_RETRIES_def)
  from s show "isl (fst (loadImageWithRetry env (JStr u) MAX_RETRIES))"
    by (simp add: loadImageWithRetry_def)
  from s show "filter is_fetch (snd (loadImageWithRetry env (JStr u) MAX_RETRIES))
        = map (Fetch (JStr u)) [1..<Suc MAX_RETRIES]"
    by (simp add: loadImageWithRetry_def)
  from s show "fetch_count (snd (loadImageWithRetry env (JStr u) MAX_RETRIES)) = MAX_RETRIES"
    by (simp add: loadImageWithRetry_def fetch_count_def)
qed

lemma world_fetch_flaky:
  "fetch world (JStr ''http://img/flaky.jpg'') j
     = (if j = 1 then Inl ''socket hang up''
        else if j = 2 then
          Inr \<lparr> ok = False, status = 503, statusText = ''Service Unavailable'',
                decoded = Inl ''no body'' \<rparr>
        else Inr \<lparr> ok = True, status = 200, statusText = ''OK'', decoded = Inr 1 \<rparr>)"
  by (simp add: world_def world_fetch_def)

lemma world_fetch_gone:
  "fetch world (JStr ''http://img/gone.jpg'') j
     = Inr \<lparr> ok = False, status = 404, statusText = ''Not Found'', decoded = Inl ''no body'' \<rparr>"
  by (simp add: world_def world_fetch_def)

lemma world_fetch_broken:
  "fetch world (JStr ''http://img/broken.jpg'') j
     = Inr \<lparr> ok = True, status = 200, statusText = ''OK'',
             decoded = Inl ''Unsupported image type'' \<rparr>"
  by (simp add: world_def world_fetch_def)

lemma world_fetch_nowhere:
  "fetch world (JStr ''http://nowhere/x.jpg'') j = Inl ''getaddrinfo ENOTFOUND''"
  by (simp add: world_def world_fetch_def)

theorem loadImageWithRetry_attempts_witness:
  "fst (loadImageWithRetry world (JStr ''http://img/flaky.jpg'') MAX_RETRIES) = Inr (Some 1) \<and>
   fetch_count (snd (loadImageWithRetry world (JStr ''http://img/flaky.jpg'') MAX_RETRIES)) = 3 \<and>
   isl (fst (loadImageWithRetry world (JStr ''http://img/gone.jpg'') MAX_RETRIES)) \<and>
   fetch_count (snd (loadImageWithRetry world (JStr ''http://img/gone.jpg'') MAX_RETRIES)) = 3 \<and>
   isl (fst (loadImageWithRetry world (JStr ''http://img/broken.jpg'') MAX_RETRIES)) \<and>
   fetch_count (snd (loadImageWithRetry world (JStr ''http://img/broken.jpg'') MAX_RETRIES)) = 3"
proof -
  have a: "1 \<le> (3::nat) \<and> (3::nat) \<le> MAX_RETRIES \<and>
      (\<forall>j. 1 \<le> j \<and> j < 3 \<longrightarrow>
         \<not> (\<exists>resp i. fetch world (JStr ''http://img/flaky.jpg'') j = Inr resp \<and> ok resp \<and>
               decoded resp = Inr i)) \<and>
      (\<exists>resp. fetch world (JStr ''http://img/flaky.jpg'') 3 = Inr resp \<and> ok resp \<and>
         decoded resp = Inr 1)"
    by (auto simp: world_fetch_flaky MAX_RETRIES_def)
  have b: "\<forall>j. 1 \<le> j \<and> j \<le> MAX_RETRIES \<longrightarrow>
      \<not> (\<exists>resp i. fetch world (JStr ''http://img/gone.jpg'') j = Inr resp \<and> ok resp \<and>
            decoded resp = Inr i)"
    by (simp add: world_fetch_gone)
  have c: "\<forall>j. 1 \<le> j \<and> j \<le> MAX_RETRIES \<longrightarrow>
      \<not> (\<exists>resp i. fetch world (JStr ''http://img/broken.jpg'') j = Inr resp \<and> ok resp \<and>
            decoded resp = Inr i)"
    by (simp add: world_fetch_broken)
  from a loadImageWithRetry_attempts [of world "''http://img/flaky.jpg''" 3 1]
  have "fst (loadImageWithRetry world (JStr ''http://img/flaky.jpg'') MAX_RETRIES) = Inr (Some 1) \<and>
   fetch_count (snd (loadImageWithRetry world (JStr ''http://img/flaky.jpg'') MAX_RETRIES)) = 3"
    by blast
  moreover from b loadImageWithRetry_attempts [of world "''http://img/gone.jpg''" 1 0]
  have "isl (fst (loadImageWithRetry world (JStr ''http://img/gone.jpg'') MAX_RETRIES)) \<and>
   fetch_count (snd (loadImageWithRetry world (JStr ''http://img/gone.jpg'') MAX_RETRIES)) = 3"
    by (simp add: MAX_RETRIES_def)
  moreover from c loadImageWithRetry_attempts [of world "''http://img/broken.jpg''" 1 0]
  have "isl (fst (loadImageWithRetry world (JStr ''http://img/broken.jpg'') MAX_RETRIES)) \<and>
   fetch_count (snd (loadImageWithRetry world (JStr ''http://img/broken.jpg'') MAX_RETRIES)) = 3"
    by (simp add: MAX_RETRIES_def)
  ultimately show ?thesis by simp
qed

text \<open>
  C5 (as stated: the error raised after the last attempt carries the last underlying
  message and the URL). For a URL that is answered 404 at every attempt, the error names
  the number of attempts and the status; the URL does not occur in it.
\<close>

theorem loadImageWithRetry_error_without_url:
  "fst (loadImageWithRetry world (JStr ''http://img/gone.jpg'') MAX_RETRIES)
     = Inl ''Failed to load image after 3 attempts: HTTP error! status: 404'' \<and>
   \<not> occurs_in ''http://img/gone.jpg''
       ''Failed to load image after 3 attempts: HTTP error! status: 404''"
  by code_simp

text \<open>
  C5 (amended). When all \<open>MAX_RETRIES\<close> attempts on a URL fail, the message of the
  error raised is \<^verbatim>\<open>Failed to load image after 3 attempts: \<close> followed by the message
  of the error of the last attempt, and nothing else: that of the rejection when the
  fetch rejected, \<^verbatim>\<open>HTTP error! status: \<close> and the status when the response was not ok,
  that of the decoding error when the bytes did not decode.
\<close>

theorem loadImageWithRetry_final_error:
  assumes "\<forall>j. 1 \<le> j \<and> j \<le> MAX_RETRIES \<longrightarrow>
       \<not> (\<exists>resp i. fetch env (JStr u) j = Inr resp \<and> ok resp \<and> decoded resp = Inr i)"
  shows "(\<forall>msg. fetch env (JStr u) MAX_RETRIES = Inl msg \<longrightarrow>
            fst (loadImageWithRetry env (JStr u) MAX_RETRIES)
              = Inl (''Failed to load image after 3 attempts: '' @ msg)) \<and>
         (\<forall>resp. fetch env (JStr u) MAX_RETRIES = Inr resp \<and> \<not> ok resp \<longrightarrow>
            fst (loadImageWithRetry env (JStr u) MAX_RETRIES)
              = Inl (''Failed to load image after 3 attempts: '' @
                     ''HTTP error! status: '' @ show_nat (status resp))) \<and>
         (\<forall>resp msg. fetch env (JStr u) MAX_RETRIES = Inr resp \<and> ok resp \<and>
              decoded resp = Inl msg \<longrightarrow>
            fst (loadImageWithRetry env (JStr u) MAX_RETRIES)
              = Inl (''Failed to load image after 3 attempts: '' @ msg))"
proof -
  have n: "show_nat MAX_RETRIES = ''3''"
    by code_simp
  from assms have "\<forall>j. 1 \<le> j \<and> j \<le> MAX_RETRIES \<longrightarrow> isl (try_attempt env (JStr u) j)"
    by (simp add: try_attempt_fails)
  then have "fst (loadImageWithRetry_from env (JStr u) MAX_RETRIES 1)
           = Inl (''Failed to load image after '' @ show_nat MAX_RETRIES @ '' attempts: ''
                  @ projl (try_attempt env (JStr u) MAX_RETRIES))"
    using loadImageWithRetry_from_exhaust [of env "JStr u" 1 MAX_RETRIES]
    by (simp add: MAX_RETRIES_def)
  then have e: "fst (loadImageWithRetry env (JStr u) MAX_RETRIES)
           = Inl (''Failed to load image after 3 attempts: ''
                  @ projl (try_attempt env (JStr u) MAX_RETRIES))"
    by (simp add: loadImageWithRetry_def n)
  show ?thesis
    by (intro conjI allI impI) (simp_all add: e try_attempt_def)
qed

theorem loadImageWithRetry_final_error_witness:
  "fst (loadImageWithRetry world (JStr ''http://nowhere/x.jpg'') MAX_RETRIES)
     = Inl ''Failed to load image after 3 attempts: getaddrinfo ENOTFOUND'' \<and>
   fst (loadImageWithRetry world (JStr ''http://img/gone.jpg'') MAX_RETRIES)
     = Inl (''Failed to load image after 3 attempts: HTTP error! status: '' @ show_nat 404) \<and>
   fst (loadImageWithRetry world (JStr ''http://img/broken.jpg'') MAX_RETRIES)
     = Inl ''Failed to load image after 3 attempts: Unsupported image type''"
proof -
  have a: "\<forall>j. 1 \<le> j \<and> j \<le> MAX_RETRIES \<longrightarrow>
      \<not> (\<exists>resp i. fetch world (JStr ''http://nowhere/x.jpg'') j = Inr resp \<and> ok resp \<and>
            decoded resp = Inr i)"
    by (simp add: world_fetch_nowhere)
  have b: "\<forall>j. 1 \<le> j \<and> j \<le> MAX_RETRIES \<longrightarrow>
      \<not> (\<exists>resp i. fetch world (JStr ''http://img/gone.jpg'') j = Inr resp \<and> ok resp \<and>
            decoded resp = Inr i)"
    by (simp add: world_fetch_gone)
  have c: "\<forall>j. 1 \<le> j \<and> j \<le> MAX_RETRIES \<longrightarrow>
      \<not> (\<exists>resp i. fetch world (JStr ''http://img/broken.jpg'') j = Inr resp \<and> ok resp \<and>
            decoded resp = Inr i)"
    by (simp add: world_fetch_broken)
  from loadImageWithRetry_final_error [OF a] loadImageWithRetry_final_error [OF b]
    loadImageWithRetry_final_error [OF c]
  show ?thesis
    by (simp add: world_fetch_nowhere world_fetch_gone world_fetch_broken)
qed

section \<open>The entries of the dataset\<close>

lemma processSingleFace_nullish:
  "nullish data \<Longrightarrow>
   processSingleFace env data = (Inl (destructure_error ''id'' ''data'' data), [])"
  by (simp add: processSingleFace_def)

lemma processSingleFace_resolves:
  assumes "\<not> nullish data"
    and "toString_js (numberToString env) (getProp data ''id'') = Some shown"
  shows "\<not> isl (fst (processSingleFace env data))"
  using assms
  by (cases "processSingleFace_try env data (getProp data ''id'') (getProp data ''imglink'')")
     (auto simp: processSingleFace_def split: sum.splits)

lemma processSingleFace_rejects:
  assumes "\<not> nullish data"
    and "toString_js (numberToString env) (getProp data ''id'') = None"
  shows "fst (processSingleFace env data) = Inl cannot_convert"
proof -
  have "isl (fst (processSingleFace_try env data (getProp data ''id'') (getProp data ''imglink'')))"
    using assms(2)
    by (auto simp: processSingleFace_try_def split: sum.splits option.splits prod.splits)
  then show ?thesis
    using assms
    by (cases "processSingleFace_try env data (getProp data ''id'') (getProp data ''imglink'')")
       (auto simp: processSingleFace_def split: sum.splits)
qed

lemma falsy_toString: "falsy v \<Longrightarrow> toString_js nts v \<noteq> None"
  by (cases v) auto

lemma validate_falsy:
  assumes "\<not> nullish data"
    and "falsy (getProp data ''id'') \<or> falsy (getProp data ''imglink'')"
  shows "isl (validateDatasetEntry nts data)"
  using assms by (auto simp: validateDatasetEntry_def)

lemma processSingleFace_falsy:
  assumes "\<not> nullish data"
    and "falsy (getProp data ''id'') \<or>
         (falsy (getProp data ''imglink'') \<and>
          toString_js (numberToString env) (getProp data ''id'') \<noteq> None)"
  shows "processSingleFace env data = (Inr None, [])"
proof -
  have f: "falsy (getProp data ''id'') \<or> falsy (getProp data ''imglink'')"
    using assms(2) by blast
  have "isl (validateDatasetEntry (numberToString env) data)"
    using assms(1) f by (rule validate_falsy)
  then obtain msg where v: "validateDatasetEntry (numberToString env) data = Inl msg"
    by (cases "validateDatasetEntry (numberToString env) data") auto
  have t: "processSingleFace_try env data (getProp data ''id'') (getProp data ''imglink'')
             = (Inl msg, [])"
    by (simp add: processSingleFace_try_def v)
  from assms(2) falsy_toString [of "getProp data ''id''" "numberToString env"]
  obtain shown where s: "toString_js (numberToString env) (getProp data ''id'') = Some shown"
    by auto
  show ?thesis
    using assms(1) by (simp add: processSingleFace_def t s)
qed

lemma first_rejection_None:
  "(\<forall>r \<in> set rs. \<not> isl r) \<Longrightarrow> first_rejection rs = None"
  by (induction rs rule: first_rejection.induct) auto

lemma first_rejection_append:
  "first_rejection (xs @ ys) = (case first_rejection xs of Some m \<Rightarrow> Some m | None \<Rightarrow> first_rejection ys)"
  by (induction xs rule: first_rejection.induct) auto

lemma resolved_values_append:
  "resolved_values (xs @ ys) = resolved_values xs @ resolved_values ys"
  by (induction xs rule: resolved_values.induct) auto

lemma not_null_append: "not_null (xs @ ys) = not_null xs @ not_null ys"
  by (induction xs rule: not_null.induct) auto

lemma loadLabeledImages_drop:
  assumes "processSingleFace env e = (Inr None, [])"
  shows "loadLabeledImages env (xs @ e # ys) = loadLabeledImages env (xs @ ys)"
  using assms
  by (simp add: loadLabeledImages_def Let_def first_rejection_append resolved_values_append
      not_null_append split: option.splits)

lemma resolved_values_length:
  "(\<forall>r \<in> set rs. \<not> isl r) \<Longrightarrow> map Inr (resolved_values rs) = rs"
  by (induction rs rule: resolved_values.induct) auto

lemma loadLabeledImages_settled:
  assumes "\<forall>e \<in> set dataset. \<not> nullish e \<and>
             toString_js (numberToString env) (getProp e ''id'') \<noteq> None"
  shows "fst (loadLabeledImages env dataset) =
           (if not_null (resolved_values (map (fst \<circ> processSingleFace env) dataset)) = []
            then Inl ''No valid face descriptors could be generated from the dataset''
            else Inr (not_null (resolved_values (map (fst \<circ> processSingleFace env) dataset))))"
proof -
  have "\<forall>r \<in> set (map (fst \<circ> processSingleFace env) dataset). \<not> isl r"
    using assms processSingleFace_resolves by fastforce
  then have "first_rejection (map (fst \<circ> processSingleFace env) dataset) = None"
    by (rule first_rejection_None)
  then show ?thesis
    by (simp add: loadLabeledImages_def Let_def)
qed

section \<open>Claims about the handler\<close>

lemma invalid_dataset_iff:
  "invalid_dataset d \<longleftrightarrow> \<not> isArray d \<or> d = JArr []"
  by (cases d) (auto simp: invalid_dataset_def)

lemma invalid_group_img_iff:
  "invalid_group_img g \<longleftrightarrow> typeof g \<noteq> ''string'' \<or> g = JStr []"
  by (cases g) (auto simp: invalid_group_img_def)

lemma initializeModels_ok:
  "\<forall>n. loadFromDisk env n = None \<Longrightarrow>
   initializeModels env
     = (Inr (), map LoadFromDisk [FaceRecognitionNet, FaceLandmark68Net, SsdMobilenetv1])"
  by (simp add: initializeModels_def)

lemma initializeModels_events:
  "snd (initializeModels env)
     = map LoadFromDisk [FaceRecognitionNet, FaceLandmark68Net, SsdMobilenetv1]"
  by (simp add: initializeModels_def Let_def split: option.splits)

lemma first_failure_Some:
  "Some msg \<in> set rs \<Longrightarrow> \<exists>m. first_failure rs = Some m"
  by (induction rs rule: first_failure.induct) auto

lemma initializeModels_fails:
  assumes "loadFromDisk env n = Some msg"
  shows "\<exists>m. fst (initializeModels env) = Inl (''Failed to load face recognition models: '' @ m)"
proof -
  have "Some msg \<in> set (map (loadFromDisk env) [FaceRecognitionNet, FaceLandmark68Net, SsdMobilenetv1])"
    using assms by (cases n) auto
  then obtain m where
    "first_failure (map (loadFromDisk env) [FaceRecognitionNet, FaceLandmark68Net, SsdMobilenetv1]) = Some m"
    using first_failure_Some by blast
  then show ?thesis
    by (simp add: initializeModels_def)
qed

text \<open>The handler after the validation, for a request that passes it.\<close>

lemma handler_valid:
  assumes "getProp body ''dataset'' = JArr entries" and "entries \<noteq> []"
    and "getProp body ''group_img'' = JStr g" and "g \<noteq> []"
  shows "handler env body =
     (case initializeModels env of
        (Inl msg, t1) \<Rightarrow> (internal_error env msg, t1)
      | (Inr u, t1) \<Rightarrow>
          (case loadLabeledImages env entries of
             (Inl msg, t2) \<Rightarrow> (internal_error env msg, t1 @ t2)
           | (Inr labeledFaceDescriptors, t2) \<Rightarrow>
               (case loadImageWithRetry env (JStr g) MAX_RETRIES of
                  (Inl msg, t3) \<Rightarrow> (internal_error env msg, t1 @ t2 @ t3)
                | (Inr img, t3) \<Rightarrow>
                    (case detectAllFaces env img of
                       Inl msg \<Rightarrow> (internal_error env msg, t1 @ t2 @ t3 @ [DetectAllFaces])
                     | Inr detections \<Rightarrow>
                         if length detections = 0
                         then (\<lparr> statusCode = 400,
                                  jsonBody = JObj [(''error'',
                                    JStr ''No faces detected in group image'')] \<rparr>,
                               t1 @ t2 @ t3 @ [DetectAllFaces])
                         else
                           (\<lparr> statusCode = 200,
                              jsonBody = JObj
                                [(''success'', JBool True),
                                 (''totalFacesDetected'', JNum (of_nat (length detections))),
                                 (''matches'',
                                    JArr (map (match_json (numberToString env))
                                      (map (findBestMatch env labeledFaceDescriptors
                                              FACE_MATCHER_THRESHOLD) detections)))] \<rparr>,
                            t1 @ t2 @ t3 @ [DetectAllFaces])))))"
proof -
  have "\<not> nullish body"
    using assms(1) by (cases body) auto
  moreover have "\<not> invalid_dataset (getProp body ''dataset'')"
    using assms(1,2) by (simp add: invalid_dataset_def)
  moreover have "\<not> invalid_group_img (getProp body ''group_img'')"
    using assms(3,4) by (simp add: invalid_group_img_def)
  ultimately show ?thesis
    using assms(1,3) by (simp add: handler_def Let_def split: prod.splits sum.splits)
qed

text \<open>
  C9 (as stated: every request in which \<^verbatim>\<open>dataset\<close> is missing is answered 400). A
  request that reaches the handler without a parsed body (\<^verbatim>\<open>req.body\<close> is undefined, as
  express 5 leaves it when no parser has read the request) has no \<^verbatim>\<open>dataset\<close>, and the
  destructuring of the body throws inside the \<^verbatim>\<open>try\<close>: the reply is 500, with the
  message of the TypeError. Nothing else happens.
\<close>

theorem handler_without_body:
  "fst (handler world JUndefined)
     = \<lparr> statusCode = 500,
         jsonBody = JObj
           [(''error'', JStr ''Internal server error''),
            (''message'', JStr (''Cannot destructure property '' @ [CHR 0x27] @ ''dataset'' @
               [CHR 0x27] @ '' of '' @ [CHR 0x27] @ ''req.body'' @ [CHR 0x27] @
               '' as it is undefined.'')),
            (''stack'', JUndefined)] \<rparr> \<and>
   snd (handler world JUndefined) = []"
  by (simp add: handler_def internal_error_def destructure_error_def world_def)

text \<open>
  C9 (amended). For every request whose body has been parsed (\<^verbatim>\<open>req.body\<close> is neither
  undefined nor null) and whose \<^verbatim>\<open>dataset\<close> is missing, is not an array or is the empty
  array, or whose \<^verbatim>\<open>group_img\<close> is missing or is not a non-empty string, the handler
  replies 400 with an error body of an \<^verbatim>\<open>error\<close> and a \<^verbatim>\<open>details\<close> string, and
  nothing else happens: no model is loaded, no image fetched, no face detected.
\<close>

theorem handler_validation_failure:
  assumes "\<not> nullish body"
    and "\<not> isArray (getProp body ''dataset'') \<or> getProp body ''dataset'' = JArr [] \<or>
         typeof (getProp body ''group_img'') \<noteq> ''string'' \<or> getProp body ''group_img'' = JStr []"
  shows "statusCode (fst (handler env body)) = 400 \<and>
         (\<exists>e d. jsonBody (fst (handler env body)) = JObj [(''error'', JStr e), (''details'', JStr d)]) \<and>
         snd (handler env body) = []"
proof -
  from assms(2) have "invalid_dataset (getProp body ''dataset'') \<or>
      invalid_group_img (getProp body ''group_img'')"
    by (simp add: invalid_dataset_iff invalid_group_img_iff)
  with assms(1) show ?thesis
    by (auto simp: handler_def Let_def)
qed

theorem handler_validation_failure_witness:
  "statusCode (fst (handler world (JObj [(''group_img'', JStr ''http://img/group.jpg'')]))) = 400 \<and>
   snd (handler world (JObj [(''group_img'', JStr ''http://img/group.jpg'')])) = [] \<and>
   statusCode (fst (handler world (request [entry 1 ''http://img/alice.jpg''] []))) = 400 \<and>
   snd (handler world (request [entry 1 ''http://img/alice.jpg''] [])) = []"
proof -
  have a: "\<not> nullish (JObj [(''group_img'', JStr ''http://img/group.jpg'')])"
    by simp
  have b: "\<not> isArray (getProp (JObj [(''group_img'', JStr ''http://img/group.jpg'')]) ''dataset'') \<or>
      getProp (JObj [(''group_img'', JStr ''http://img/group.jpg'')]) ''dataset'' = JArr [] \<or>
      typeof (getProp (JObj [(''group_img'', JStr ''http://img/group.jpg'')]) ''group_img'') \<noteq> ''string'' \<or>
      getProp (JObj [(''group_img'', JStr ''http://img/group.jpg'')]) ''group_img'' = JStr []"
    by simp
  have c: "\<not> nullish (request [entry 1 ''http://img/alice.jpg''] [])"
    by (simp add: request_def)
  have d: "\<not> isArray (getProp (request [entry 1 ''http://img/alice.jpg''] []) ''dataset'') \<or>
      getProp (request [entry 1 ''http://img/alice.jpg''] []) ''dataset'' = JArr [] \<or>
      typeof (getProp (request [entry 1 ''http://img/alice.jpg''] []) ''group_img'') \<noteq> ''string'' \<or>
      getProp (request [entry 1 ''http://img/alice.jpg''] []) ''group_img'' = JStr []"
    by (simp add: request_def)
  from handler_validation_failure [OF a b, of world] handler_validation_failure [OF c d, of world]
  show ?thesis by simp
qed

lemma not_null_nonempty:
  assumes "e \<in> set dataset" and "fst (processSingleFace env e) = Inr (Some l)"
  shows "not_null (resolved_values (map (fst \<circ> processSingleFace env) dataset)) \<noteq> []"
  using assms
proof (induction dataset)
  case Nil
  then show ?case by simp
next
  case (Cons x xs)
  show ?case
  proof (cases "fst (processSingleFace env x)")
    case (Inl msg)
    with Cons show ?thesis by auto
  next
    case (Inr v)
    with Cons show ?thesis by (cases v) auto
  qed
qed

lemma not_null_empty:
  assumes "\<forall>e \<in> set dataset. fst (processSingleFace env e) = Inr None"
  shows "not_null (resolved_values (map (fst \<circ> processSingleFace env) dataset)) = []"
  using assms by (induction dataset) auto

text \<open>
  C7. For a request that passes the validation, with the models loaded and a reference
  set built: if the group image loads and no face is detected on it, the reply is 400
  with the error \<^verbatim>\<open>No faces detected in group image\<close>; if loading the group image fails,
  or the detection on it fails, the reply is 500 with the message of the failure.
\<close>

theorem handler_group_image_outcomes:
  assumes "getProp body ''dataset'' = JArr entries" and "entries \<noteq> []"
    and "getProp body ''group_img'' = JStr g" and "g \<noteq> []"
    and "\<forall>n. loadFromDisk env n = None"
    and "fst (loadLabeledImages env entries) = Inr refs"
  shows "(\<forall>img. fst (loadImageWithRetry env (JStr g) MAX_RETRIES) = Inr img \<and>
            detectAllFaces env img = Inr [] \<longrightarrow>
            statusCode (fst (handler env body)) = 400 \<and>
            jsonBody (fst (handler env body))
              = JObj [(''error'', JStr ''No faces detected in group image'')]) \<and>
         (\<forall>msg. fst (loadImageWithRetry env (JStr g) MAX_RETRIES) = Inl msg \<longrightarrow>
            statusCode (fst (handler env body)) = 500 \<and>
            getProp (jsonBody (fst (handler env body))) ''message'' = JStr msg) \<and>
         (\<forall>img msg. fst (loadImageWithRetry env (JStr g) MAX_RETRIES) = Inr img \<and>
            detectAllFaces env img = Inl msg \<longrightarrow>
            statusCode (fst (handler env body)) = 500 \<and>
            getProp (jsonBody (fst (handler env body))) ''message'' = JStr msg)"
proof -
  note h = handler_valid [OF assms(1-4), of env] initializeModels_ok [OF assms(5)]
  obtain t2 where l: "loadLabeledImages env entries = (Inr refs, t2)"
    using assms(6) by (cases "loadLabeledImages env entries") auto
  show ?thesis
  proof (intro conjI allI impI)
    fix img
    assume a: "fst (loadImageWithRetry env (JStr g) MAX_RETRIES) = Inr img \<and>
               detectAllFaces env img = Inr []"
    then obtain t3 where "loadImageWithRetry env (JStr g) MAX_RETRIES = (Inr img, t3)"
      by (cases "loadImageWithRetry env (JStr g) MAX_RETRIES") auto
    with a show "statusCode (fst (handler env body)) = 400"
      and "jsonBody (fst (handler env body))
              = JObj [(''error'', JStr ''No faces detected in group image'')]"
      by (simp_all add: h l)
  next
    fix msg
    assume "fst (loadImageWithRetry env (JStr g) MAX_RETRIES) = Inl msg"
    then obtain t3 where "loadImageWithRetry env (JStr g) MAX_RETRIES = (Inl msg, t3)"
      by (cases "loadImageWithRetry env (JStr g) MAX_RETRIES") auto
    then show "statusCode (fst (handler env body)) = 500"
      and "getProp (jsonBody (fst (handler env body))) ''message'' = JStr msg"
      by (simp_all add: h l internal_error_def)
  next
    fix img msg
    assume a: "fst (loadImageWithRetry env (JStr g) MAX_RETRIES) = Inr img \<and>
               detectAllFaces env img = Inl msg"
    then obtain t3 where "loadImageWithRetry env (JStr g) MAX_RETRIES = (Inr img, t3)"
      by (cases "loadImageWithRetry env (JStr g) MAX_RETRIES") auto
    with a show "statusCode (fst (handler env body)) = 500"
      and "getProp (jsonBody (fst (handler env body))) ''message'' = JStr msg"
      by (simp_all add: h l internal_error_def)
  qed
qed

text \<open>
  C2. For every request with a non-empty dataset of entries that are not null and whose id
  has a string (every string and number has one), at least one of which yields a labelled
  descriptor, and a group image that loads and on which at least one face is detected:
  the reply is 200, and \<^verbatim>\<open>matches\<close> has one element per detected face, as many as
  \<^verbatim>\<open>totalFacesDetected\<close> says.
\<close>

theorem handler_success:
  assumes "getProp body ''dataset'' = JArr entries" and "entries \<noteq> []"
    and "getProp body ''group_img'' = JStr g" and "g \<noteq> []"
    and "\<forall>n. loadFromDisk env n = None"
    and "\<forall>e \<in> set entries. \<not> nullish e \<and>
           toString_js (numberToString env) (getProp e ''id'') \<noteq> None"
    and "\<exists>e \<in> set entries. \<exists>l. fst (processSingleFace env e) = Inr (Some l)"
    and "fst (loadImageWithRetry env (JStr g) MAX_RETRIES) = Inr img"
    and "detectAllFaces env img = Inr detections" and "detections \<noteq> []"
  shows "statusCode (fst (handler env body)) = 200 \<and>
         getProp (jsonBody (fst (handler env body))) ''success'' = JBool True \<and>
         getProp (jsonBody (fst (handler env body))) ''totalFacesDetected''
           = JNum (of_nat (length detections)) \<and>
         (\<exists>ms. getProp (jsonBody (fst (handler env body))) ''matches'' = JArr ms \<and>
               length ms = length detections)"
proof -
  note h = handler_valid [OF assms(1-4), of env] initializeModels_ok [OF assms(5)]
  from assms(7) obtain e l where "e \<in> set entries" "fst (processSingleFace env e) = Inr (Some l)"
    by blast
  then have "not_null (resolved_values (map (fst \<circ> processSingleFace env) entries)) \<noteq> []"
    by (rule not_null_nonempty)
  with loadLabeledImages_settled [OF assms(6)]
  obtain refs t2 where l: "loadLabeledImages env entries = (Inr refs, t2)"
    by (cases "loadLabeledImages env entries") auto
  obtain t3 where g: "loadImageWithRetry env (JStr g) MAX_RETRIES = (Inr img, t3)"
    using assms(8) by (cases "loadImageWithRetry env (JStr g) MAX_RETRIES") auto
  show ?thesis
    using assms(9,10) by (simp add: h l g)
qed

text \<open>
  C1 (what the code does). When every entry of a non-empty dataset resolves to null
  (invalid shape, fetch failure or no face), \<open>loadLabeledImages\<close> throws, the
  \<^verbatim>\<open>catch\<close> of the handler takes the error, and the reply is 500 with the error
  \<^verbatim>\<open>Internal server error\<close>, not 400.
\<close>

theorem handler_empty_reference_set:
  assumes "getProp body ''dataset'' = JArr entries" and "entries \<noteq> []"
    and "getProp body ''group_img'' = JStr g" and "g \<noteq> []"
    and "\<forall>n. loadFromDisk env n = None"
    and "\<forall>e \<in> set entries. fst (processSingleFace env e) = Inr None"
  shows "statusCode (fst (handler env body)) = 500 \<and>
         getProp (jsonBody (fst (handler env body))) ''error'' = JStr ''Internal server error'' \<and>
         getProp (jsonBody (fst (handler env body))) ''message''
           = JStr ''No valid face descriptors could be generated from the dataset''"
proof -
  note h = handler_valid [OF assms(1-4), of env] initializeModels_ok [OF assms(5)]
  have "\<forall>r \<in> set (map (fst \<circ> processSingleFace env) entries). \<not> isl r"
    using assms(6) by auto
  then have "first_rejection (map (fst \<circ> processSingleFace env) entries) = None"
    by (rule first_rejection_None)
  with not_null_empty [OF assms(6)]
  have "fst (loadLabeledImages env entries)
          = Inl ''No valid face descriptors could be generated from the dataset''"
    by (simp add: loadLabeledImages_def Let_def)
  then obtain t2 where "loadLabeledImages env entries
          = (Inl ''No valid face descriptors could be generated from the dataset'', t2)"
    by (cases "loadLabeledImages env entries") auto
  then show ?thesis
    by (simp add: h internal_error_def)
qed

lemma request_props:
  "getProp (request ds g) ''dataset'' = JArr ds"
  "getProp (request ds g) ''group_img'' = JStr g"
  by (simp_all add: request_def)

lemma world_models: "\<forall>n. loadFromDisk world n = None"
  by (simp add: world_def)

lemma world_alice:
  "processSingleFace world (entry 1 ''http://img/alice.jpg'')
     = (Inr (Some \<lparr> label = ''1'', descriptors = [10] \<rparr>),
        [Fetch (JStr ''http://img/alice.jpg'') 1, DetectSingleFace])"
  by code_simp

lemma world_refs_alice:
  "loadLabeledImages world [entry 1 ''http://img/alice.jpg'']
     = (Inr [\<lparr> label = ''1'', descriptors = [10] \<rparr>],
        [Fetch (JStr ''http://img/alice.jpg'') 1, DetectSingleFace])"
  by code_simp

lemma world_group:
  "loadImageWithRetry world (JStr ''http://img/group.jpg'') MAX_RETRIES
     = (Inr (Some 2), [Fetch (JStr ''http://img/group.jpg'') 1])"
  by code_simp

lemma world_group_faces: "detectAllFaces world (Some 2) = Inr [2, 6]"
  by code_simp

lemma world_empty:
  "loadImageWithRetry world (JStr ''http://img/empty.jpg'') MAX_RETRIES
     = (Inr (Some 0), [Fetch (JStr ''http://img/empty.jpg'') 1])"
  by code_simp

lemma world_empty_faces: "detectAllFaces world (Some 0) = Inr []"
  by code_simp

lemma world_nowhere:
  "fst (loadImageWithRetry world (JStr ''http://nowhere/g.jpg'') MAX_RETRIES)
     = Inl ''Failed to load image after 3 attempts: getaddrinfo ENOTFOUND''"
  by code_simp

theorem handler_success_witness:
  "statusCode (fst (handler world
      (request [entry 1 ''http://img/alice.jpg''] ''http://img/group.jpg''))) = 200 \<and>
   getProp (jsonBody (fst (handler world
      (request [entry 1 ''http://img/alice.jpg''] ''http://img/group.jpg'')))) ''totalFacesDetected''
     = JNum 2 \<and>
   (\<exists>ms. getProp (jsonBody (fst (handler world
      (request [entry 1 ''http://img/alice.jpg''] ''http://img/group.jpg'')))) ''matches'' = JArr ms \<and>
      length ms = 2)"
proof -
  have ne: "[entry 1 ''http://img/alice.jpg''] \<noteq> []" "''http://img/group.jpg'' \<noteq> []"
    by simp_all
  have s: "\<forall>e \<in> set [entry 1 ''http://img/alice.jpg'']. \<not> nullish e \<and>
      toString_js (numberToString world) (getProp e ''id'') \<noteq> None"
    by (simp add: entry_def)
  have p: "\<exists>e \<in> set [entry 1 ''http://img/alice.jpg'']. \<exists>l.
      fst (processSingleFace world e) = Inr (Some l)"
    by (simp add: world_alice)
  have g: "fst (loadImageWithRetry world (JStr ''http://img/group.jpg'') MAX_RETRIES) = Inr (Some 2)"
    by (simp add: world_group)
  have d: "[2, 6::nat] \<noteq> []"
    by simp
  from handler_success [OF request_props(1) ne(1) request_props(2) ne(2) world_models s p g
      world_group_faces d]
  show ?thesis by (simp add: numeral_2_eq_2)
qed

theorem handler_group_image_outcomes_witness:
  "statusCode (fst (handler world
      (request [entry 1 ''http://img/alice.jpg''] ''http://img/empty.jpg''))) = 400 \<and>
   jsonBody (fst (handler world
      (request [entry 1 ''http://img/alice.jpg''] ''http://img/empty.jpg'')))
     = JObj [(''error'', JStr ''No faces detected in group image'')] \<and>
   statusCode (fst (handler world
      (request [entry 1 ''http://img/alice.jpg''] ''http://nowhere/g.jpg''))) = 500"
proof -
  have ne: "[entry 1 ''http://img/alice.jpg''] \<noteq> []" "''http://img/empty.jpg'' \<noteq> []"
    "''http://nowhere/g.jpg'' \<noteq> []"
    by simp_all
  have r: "fst (loadLabeledImages world [entry 1 ''http://img/alice.jpg''])
      = Inr [\<lparr> label = ''1'', descriptors = [10] \<rparr>]"
    by (simp add: world_refs_alice)
  have e: "fst (loadImageWithRetry world (JStr ''http://img/empty.jpg'') MAX_RETRIES) = Inr (Some 0) \<and>
      detectAllFaces world (Some 0) = Inr []"
    by (simp add: world_empty world_empty_faces)
  from e handler_group_image_outcomes [OF request_props(1) ne(1) request_props(2) ne(2)
      world_models r]
  have "statusCode (fst (handler world
      (request [entry 1 ''http://img/alice.jpg''] ''http://img/empty.jpg''))) = 400 \<and>
   jsonBody (fst (handler world
      (request [entry 1 ''http://img/alice.jpg''] ''http://img/empty.jpg'')))
     = JObj [(''error'', JStr ''No faces detected in group image'')]"
    by blast
  moreover from world_nowhere handler_group_image_outcomes [OF request_props(1) ne(1)
      request_props(2) ne(3) world_models r]
  have "statusCode (fst (handler world
      (request [entry 1 ''http://img/alice.jpg''] ''http://nowhere/g.jpg''))) = 500"
    by blast
  ultimately show ?thesis by simp
qed

lemma world_empty_entry:
  "fst (processSingleFace world (entry 1 ''http://img/empty.jpg'')) = Inr None"
  by code_simp

theorem handler_empty_reference_set_witness:
  "statusCode (fst (handler world
      (request [entry 1 ''http://img/empty.jpg''] ''http://img/group.jpg''))) = 500 \<and>
   getProp (jsonBody (fst (handler world
      (request [entry 1 ''http://img/empty.jpg''] ''http://img/group.jpg'')))) ''message''
     = JStr ''No valid face descriptors could be generated from the dataset''"
proof -
  have ne: "[entry 1 ''http://img/empty.jpg''] \<noteq> []" "''http://img/group.jpg'' \<noteq> []"
    by simp_all
  have a: "\<forall>e \<in> set [entry 1 ''http://img/empty.jpg''].
      fst (processSingleFace world e) = Inr None"
    by (simp add: world_empty_entry)
  from handler_empty_reference_set [OF request_props(1) ne(1) request_props(2) ne(2)
      world_models a]
  show ?thesis by simp
qed

lemma first_rejection_entries_part_000:
  assumes "\<forall>e \<in> set dataset. fst (loadLabeledImages_entry_part_000 env e) = Inr None"
  shows "fst (loadLabeledImages_part_000 env dataset) = Inr []"
proof -
  have "\<forall>r \<in> set (map (fst \<circ> loadLabeledImages_entry_part_000 env) dataset). \<not> isl r"
    using assms by auto
  then have "first_rejection (map (fst \<circ> loadLabeledImages_entry_part_000 env) dataset) = None"
    by (rule first_rejection_None)
  moreover have "not_null (resolved_values
      (map (fst \<circ> loadLabeledImages_entry_part_000 env) dataset)) = []"
    using assms by (induction dataset) auto
  ultimately show ?thesis
    by (simp add: loadLabeledImages_part_000_def Let_def)
qed

text \<open>
  The handler of the second server file replies 400 to the same kind of request: it
  tests the length of the list that its \<open>loadLabeledImages\<close> returns.
\<close>

lemma handler_part_000_empty_reference_set:
  assumes "getProp body ''dataset'' = JArr entries" and "\<not> falsy (getProp body ''group_img'')"
    and "\<forall>n. loadFromDisk env n = None"
    and "\<forall>e \<in> set entries. fst (loadLabeledImages_entry_part_000 env e) = Inr None"
  shows "statusCode (fst (handler_part_000 env body)) = 400 \<and>
         jsonBody (fst (handler_part_000 env body))
           = JObj [(''error'',
               JStr ''No valid face descriptors could be generated from the dataset'')]"
proof -
  have n: "\<not> nullish body"
    using assms(1) by (cases body) auto
  obtain t2 where l: "loadLabeledImages_part_000 env entries = (Inr [], t2)"
    using first_rejection_entries_part_000 [OF assms(4)]
    by (cases "loadLabeledImages_part_000 env entries") auto
  show ?thesis
    using n assms(1-3) by (simp add: handler_part_000_def Let_def l)
qed

lemma world_empty_entry_part_000:
  "fst (loadLabeledImages_entry_part_000 world (entry 1 ''http://img/empty.jpg'')) = Inr None"
  by code_simp

lemma handler_part_000_replies_400:
  "statusCode (fst (handler_part_000 world
      (request [entry 1 ''http://img/empty.jpg''] ''http://img/group.jpg''))) = 400"
proof -
  have a: "\<not> falsy (getProp (request [entry 1 ''http://img/empty.jpg''] ''http://img/group.jpg'')
      ''group_img'')"
    by (simp add: request_props)
  have b: "\<forall>e \<in> set [entry 1 ''http://img/empty.jpg''].
      fst (loadLabeledImages_entry_part_000 world e) = Inr None"
    by (simp add: world_empty_entry_part_000)
  from handler_part_000_empty_reference_set [OF request_props(1) a world_models b]
  show ?thesis by simp
qed

text \<open>
  C3 (amended). Every request that passes the validation loads the three models, as the
  first thing it does, before any image is fetched or any face detected; when one of the
  loads fails, that request is answered 500 and does nothing more.
\<close>

theorem handler_loads_models_each_request:
  assumes "getProp body ''dataset'' = JArr entries" and "entries \<noteq> []"
    and "getProp body ''group_img'' = JStr g" and "g \<noteq> []"
  shows "take 3 (snd (handler env body))
           = [LoadFromDisk FaceRecognitionNet, LoadFromDisk FaceLandmark68Net,
              LoadFromDisk SsdMobilenetv1] \<and>
         (\<forall>n msg. loadFromDisk env n = Some msg \<longrightarrow>
            statusCode (fst (handler env body)) = 500 \<and>
            snd (handler env body)
              = [LoadFromDisk FaceRecognitionNet, LoadFromDisk FaceLandmark68Net,
                 LoadFromDisk SsdMobilenetv1])"
proof (intro conjI allI impI)
  note h = handler_valid [OF assms, of env]
  obtain r t1 where i: "initializeModels env = (r, t1)"
    by (cases "initializeModels env") auto
  with initializeModels_events [of env]
  have t1: "t1 = [LoadFromDisk FaceRecognitionNet, LoadFromDisk FaceLandmark68Net,
       LoadFromDisk SsdMobilenetv1]"
    by simp
  show "take 3 (snd (handler env body))
           = [LoadFromDisk FaceRecognitionNet, LoadFromDisk FaceLandmark68Net,
              LoadFromDisk SsdMobilenetv1]"
    by (simp add: h i t1 split: sum.splits prod.splits)
  fix n msg
  assume "loadFromDisk env n = Some msg"
  from initializeModels_fails [OF this] i obtain m where
    r: "r = Inl (''Failed to load face recognition models: '' @ m)"
    by auto
  show "statusCode (fst (handler env body)) = 500"
    by (simp add: h i r internal_error_def)
  show "snd (handler env body)
              = [LoadFromDisk FaceRecognitionNet, LoadFromDisk FaceLandmark68Net,
                 LoadFromDisk SsdMobilenetv1]"
    by (simp add: h i r t1)
qed

theorem handler_loads_models_each_request_witness:
  "take 3 (snd (handler world
      (request [entry 1 ''http://img/alice.jpg''] ''http://img/group.jpg'')))
     = [LoadFromDisk FaceRecognitionNet, LoadFromDisk FaceLandmark68Net,
        LoadFromDisk SsdMobilenetv1] \<and>
   statusCode (fst (handler broken_disk
      (request [entry 1 ''http://img/alice.jpg''] ''http://img/group.jpg''))) = 500 \<and>
   snd (handler broken_disk
      (request [entry 1 ''http://img/alice.jpg''] ''http://img/group.jpg''))
     = [LoadFromDisk FaceRecognitionNet, LoadFromDisk FaceLandmark68Net,
        LoadFromDisk SsdMobilenetv1]"
proof -
  have ne: "[entry 1 ''http://img/alice.jpg''] \<noteq> []" "''http://img/group.jpg'' \<noteq> []"
    by simp_all
  have b: "loadFromDisk broken_disk FaceLandmark68Net = Some ''ENOENT: no such file or directory''"
    by (simp add: broken_disk_def)
  from b handler_loads_models_each_request [OF request_props(1) ne(1) request_props(2) ne(2),
      of broken_disk]
  have "statusCode (fst (handler broken_disk
      (request [entry 1 ''http://img/alice.jpg''] ''http://img/group.jpg''))) = 500 \<and>
   snd (handler broken_disk
      (request [entry 1 ''http://img/alice.jpg''] ''http://img/group.jpg''))
     = [LoadFromDisk FaceRecognitionNet, LoadFromDisk FaceLandmark68Net,
        LoadFromDisk SsdMobilenetv1]"
    by blast
  with handler_loads_models_each_request [OF request_props(1) ne(1) request_props(2) ne(2),
      of world]
  show ?thesis by simp
qed

lemma world_request_events:
  "snd (handler world (request [entry 1 ''http://img/alice.jpg''] ''http://img/group.jpg''))
     = [LoadFromDisk FaceRecognitionNet, LoadFromDisk FaceLandmark68Net,
        LoadFromDisk SsdMobilenetv1,
        Fetch (JStr ''http://img/alice.jpg'') 1, DetectSingleFace,
        Fetch (JStr ''http://img/group.jpg'') 1, DetectAllFaces]"
proof -
  have ne: "[entry 1 ''http://img/alice.jpg''] \<noteq> []" "''http://img/group.jpg'' \<noteq> []"
    by simp_all
  show ?thesis
    by (simp add: handler_valid [OF request_props(1) ne(1) request_props(2) ne(2)]
        initializeModels_ok [OF world_models] world_refs_alice world_group world_group_faces)
qed

text \<open>
  C3 (as stated: the models are loaded exactly once, at process start). Nothing is loaded
  before the first request, and two requests load the detector twice.
\<close>

theorem models_loaded_by_every_request:
  "server_events world [] = [] \<and>
   length (filter (\<lambda>e. e = LoadFromDisk SsdMobilenetv1)
     (server_events world
        [request [entry 1 ''http://img/alice.jpg''] ''http://img/group.jpg'',
         request [entry 1 ''http://img/alice.jpg''] ''http://img/group.jpg''])) = 2"
  by (simp add: server_events_def startup_events_def world_request_events)

text \<open>
  C8 (what the code does). A dataset with a null entry: the destructuring of the entry
  throws before the \<^verbatim>\<open>try\<close>, the promise of the entry rejects and
  \<open>loadLabeledImages\<close> rejects with it, although the other entry alone yields a
  labelled descriptor.
\<close>

theorem loadLabeledImages_null_entry_rejects:
  "fst (loadLabeledImages world [entry 1 ''http://img/alice.jpg''])
     = Inr [\<lparr> label = ''1'', descriptors = [10] \<rparr>] \<and>
   fst (loadLabeledImages world [JNull, entry 1 ''http://img/alice.jpg''])
     = Inl (destructure_error ''id'' ''data'' JNull)"
  by code_simp

text \<open>
  C10. A dataset entry that is not null and whose \<^verbatim>\<open>id\<close> is falsy, or whose
  \<^verbatim>\<open>imglink\<close> is falsy and whose id has a string, resolves to null without any fetch,
  whatever the image behind its link holds, and the result of \<open>loadLabeledImages\<close>
  is the one of the dataset without the entry.
\<close>

theorem falsy_entry_dropped:
  assumes "\<not> nullish e"
    and "falsy (getProp e ''id'') \<or>
         (falsy (getProp e ''imglink'') \<and>
          toString_js (numberToString env) (getProp e ''id'') \<noteq> None)"
  shows "processSingleFace env e = (Inr None, []) \<and>
         loadLabeledImages env (xs @ e # ys) = loadLabeledImages env (xs @ ys)"
  using processSingleFace_falsy [OF assms] loadLabeledImages_drop by blast

theorem falsy_entry_dropped_witness:
  "fst (processSingleFace world (entry 1 ''http://img/alice.jpg''))
     = Inr (Some \<lparr> label = ''1'', descriptors = [10] \<rparr>) \<and>
   processSingleFace world (entry 0 ''http://img/alice.jpg'') = (Inr None, []) \<and>
   loadLabeledImages world [entry 1 ''http://img/alice.jpg'', entry 0 ''http://img/alice.jpg'']
     = loadLabeledImages world [entry 1 ''http://img/alice.jpg'']"
proof -
  have a: "\<not> nullish (entry 0 ''http://img/alice.jpg'')"
    by (simp add: entry_def)
  have b: "falsy (getProp (entry 0 ''http://img/alice.jpg'') ''id'') \<or>
         (falsy (getProp (entry 0 ''http://img/alice.jpg'') ''imglink'') \<and>
          toString_js (numberToString world) (getProp (entry 0 ''http://img/alice.jpg'') ''id'')
            \<noteq> None)"
    by (simp add: entry_def)
  from falsy_entry_dropped [OF a b, of "[entry 1 ''http://img/alice.jpg'']" "[]"]
  show ?thesis by (simp add: world_alice)
qed

text \<open>
  The \<open>loadLabeledImages\<close> of the second server file tests the same two fields
  for truthiness, before its \<^verbatim>\<open>try\<close>, and drops such an entry as well.
\<close>

lemma loadLabeledImages_entry_part_000_falsy:
  assumes "\<not> nullish data"
    and "falsy (getProp data ''id'') \<or> falsy (getProp data ''imglink'')"
  shows "loadLabeledImages_entry_part_000 env data = (Inr None, [])"
  using assms by (simp add: loadLabeledImages_entry_part_000_def)

section \<open>Rounding to doubles\<close>

lemma pow2_pos: "0 < pow2 k"
  by (simp add: pow2_def)

lemma pow2_mono: "a \<le> b \<Longrightarrow> pow2 a \<le> pow2 b"
proof -
  assume ab: "a \<le> b"
  have p: "pow2 k = 2 powi k" for k
    by (simp add: pow2_def power_int_def inverse_eq_divide power_one_over)
  show ?thesis
    unfolding p using ab by (intro power_int_increasing) simp_all
qed

lemma pow2_nonpos: "k \<le> 0 \<Longrightarrow> 1 / pow2 k = of_int (2 ^ nat (- k))"
  by (simp add: pow2_def)

lemma round_even_of_int: "round_even (of_int n) = n"
  by (simp add: round_even_def)

lemma round_even_numeral: "round_even (numeral k) = numeral k"
  using round_even_of_int [of "numeral k"] by simp

lemma round_even_unique:
  assumes "of_int n - 1 / 2 < y" and "y < of_int n + 1 / 2"
  shows "round_even y = n"
proof -
  define f where "f = \<lfloor>y\<rfloor>"
  have f: "of_int f \<le> y" "y < of_int f + 1"
    unfolding f_def by linarith+
  have "f = n \<or> f = n - 1"
  proof -
    have "(of_int f :: rat) < of_int n + 1 / 2" "(of_int n :: rat) - 3 / 2 < of_int f"
      using assms f by linarith+
    then have "(of_int f :: rat) < of_int (n + 1)" "(of_int (n - 2) :: rat) < of_int f"
      by simp_all
    then have "f < n + 1" "n - 2 < f"
      by (simp_all only: of_int_less_iff)
    then show ?thesis by linarith
  qed
  then show ?thesis
  proof
    assume "f = n"
    with assms have "y - of_int f < 1 / 2" by simp
    then show ?thesis
      using \<open>f = n\<close> by (simp add: round_even_def f_def [symmetric] Let_def)
  next
    assume e: "f = n - 1"
    with assms have "1 / 2 < y - of_int f" by simp
    then show ?thesis
      using e by (simp add: round_even_def f_def [symmetric] Let_def)
  qed
qed

lemma round_even_cases:
  "round_even y = \<lfloor>y\<rfloor> \<and> y - of_int \<lfloor>y\<rfloor> \<le> 1 / 2 \<or>
   round_even y = \<lfloor>y\<rfloor> + 1 \<and> 1 / 2 \<le> y - of_int \<lfloor>y\<rfloor>"
  by (auto simp: round_even_def Let_def)

lemma round_even_close: "\<bar>of_int (round_even y) - y\<bar> \<le> 1 / 2"
proof -
  define f where "f = \<lfloor>y\<rfloor>"
  have f: "of_int f \<le> y" "y < of_int f + 1"
    unfolding f_def by linarith+
  from round_even_cases [of y] show ?thesis
  proof
    assume "round_even y = \<lfloor>y\<rfloor> \<and> y - of_int \<lfloor>y\<rfloor> \<le> 1 / 2"
    then have "round_even y = f" "y - of_int f \<le> 1 / 2"
      by (simp_all add: f_def)
    with f show ?thesis by simp
  next
    assume "round_even y = \<lfloor>y\<rfloor> + 1 \<and> 1 / 2 \<le> y - of_int \<lfloor>y\<rfloor>"
    then have "round_even y = f + 1" "1 / 2 \<le> y - of_int f"
      by (simp_all add: f_def)
    with f show ?thesis by simp
  qed
qed

lemma round_even_nonneg:
  assumes "0 \<le> y"
  shows "0 \<le> round_even y"
proof -
  have "0 \<le> \<lfloor>y\<rfloor>"
    using assms by simp
  with round_even_cases [of y] show ?thesis
    by linarith
qed

lemma round_even_le:
  assumes "y \<le> of_int k"
  shows "round_even y \<le> k"
proof -
  define f where "f = \<lfloor>y\<rfloor>"
  have f: "of_int f \<le> y" "y < of_int f + 1"
    unfolding f_def by linarith+
  have fk: "f \<le> k"
    using assms by (simp add: f_def floor_le_iff)
  show ?thesis
  proof (cases "f = k")
    case True
    with f assms have "y = of_int f" by simp
    then show ?thesis
      using True by (simp add: round_even_of_int)
  next
    case False
    with fk have "f + 1 \<le> k" by simp
    with round_even_cases [of y] show ?thesis
      by (auto simp: f_def)
  qed
qed

lemma log2_up_le: "x < 2 ^ Suc n \<Longrightarrow> log2_up x \<le> n"
proof (induction n arbitrary: x)
  case 0
  then show ?case
    by (subst log2_up.simps) simp
next
  case (Suc n)
  show ?case
  proof (cases "x < 2")
    case True
    then show ?thesis
      by (subst log2_up.simps) simp
  next
    case False
    from Suc.prems have "x / 2 < 2 ^ Suc n"
      by simp
    then have "log2_up (x / 2) \<le> n"
      by (rule Suc.IH)
    with False show ?thesis
      by (subst log2_up.simps) simp
  qed
qed

lemma exponent_le: "x < 2 ^ Suc n \<Longrightarrow> exponent x \<le> int n"
  using log2_up_le [of x n] by (simp add: exponent_def)

lemma quantum_le:
  assumes "\<bar>x\<bar> < 2 ^ Suc n"
  shows "quantum x \<le> int n - 52"
  using exponent_le [OF assms] by (simp add: quantum_def)

text \<open>A result between 0 and an integer below \<open>2^53\<close> is rounded to a double between them.\<close>

lemma to_double_range:
  assumes "0 \<le> x" and "x \<le> of_int k" and "k < 2 ^ 53"
  shows "\<exists>v. to_double x = Some v \<and> 0 \<le> v \<and> v \<le> of_int k"
proof (cases "x = 0")
  case True
  with assms show ?thesis
    by (simp add: to_double_def)
next
  case False
  with assms have pos: "0 < x" by simp
  define q where "q = quantum x"
  define v where "v = of_int (round_even (\<bar>x\<bar> / pow2 q)) * pow2 q"
  have "rat_of_int k < 2 ^ 53"
    using assms(3) by (metis of_int_less_iff of_int_numeral of_int_power)
  with assms pos have "\<bar>x\<bar> < 2 ^ Suc 52"
    by simp
  then have "q \<le> 0"
    using quantum_le [of x 52] by (simp add: q_def)
  then obtain m :: int where m: "1 / pow2 q = of_int m"
    using pow2_nonpos by blast
  have mp: "0 < (of_int m :: rat)"
    using pow2_pos [of q] m by (metis zero_less_divide_1_iff)
  have "\<bar>x\<bar> / pow2 q = \<bar>x\<bar> * (1 / pow2 q)"
    by simp
  also have "\<dots> = x * of_int m"
    using pos by (simp only: m)
  also have "\<dots> \<le> of_int k * of_int m"
    using assms(2) mp by (simp add: mult_right_mono)
  finally have "\<bar>x\<bar> / pow2 q \<le> of_int (k * m)"
    by simp
  then have "round_even (\<bar>x\<bar> / pow2 q) \<le> k * m"
    by (rule round_even_le)
  then have "(of_int (round_even (\<bar>x\<bar> / pow2 q)) :: rat) \<le> of_int (k * m)"
    by (simp only: of_int_le_iff)
  then have "v \<le> of_int (k * m) * pow2 q"
    unfolding v_def using pow2_pos [of q] by (simp add: mult_right_mono)
  moreover have "of_int (k * m) * pow2 q = (of_int k :: rat)"
  proof -
    have "of_int m * pow2 q = (1::rat)"
      using pow2_pos [of q] by (simp add: m [symmetric])
    then have "of_int k * (of_int m * pow2 q) = (of_int k :: rat)"
      by simp
    then show ?thesis
      by (simp only: of_int_mult mult.assoc)
  qed
  ultimately have vk: "v \<le> of_int k"
    by (simp only:)
  have "0 \<le> \<bar>x\<bar> / pow2 q"
    using pow2_pos [of q] by simp
  then have "0 \<le> round_even (\<bar>x\<bar> / pow2 q)"
    by (rule round_even_nonneg)
  then have v0: "0 \<le> v"
    unfolding v_def using pow2_pos [of q] by simp
  have "v < double_overflow"
  proof -
    have "(2::rat) ^ 53 \<le> 2 ^ 1024"
      by (rule power_increasing) simp_all
    with vk \<open>rat_of_int k < 2 ^ 53\<close> show ?thesis
      unfolding double_overflow_def by linarith
  qed
  then have "to_double x = Some v"
    unfolding to_double_def Let_def q_def [symmetric] v_def [symmetric]
    using pos by simp
  with v0 vk show ?thesis
    by simp
qed

text \<open>The rounding error of a result below \<open>2^(n + 1)\<close> is at most half a unit of its last bit.\<close>

lemma to_double_error:
  assumes "to_double x = Some v" and "\<bar>x\<bar> < 2 ^ Suc n"
  shows "\<bar>v - x\<bar> \<le> pow2 (int n - 53)"
proof (cases "x = 0")
  case True
  with assms(1) show ?thesis
    using pow2_pos [of "int n - 53"] by (simp add: to_double_def)
next
  case False
  define q where "q = quantum x"
  define w where "w = of_int (round_even (\<bar>x\<bar> / pow2 q)) * pow2 q"
  from assms(1) False have v: "v = (if x < 0 then - w else w)"
    unfolding to_double_def Let_def q_def [symmetric] w_def [symmetric]
    by (auto split: if_splits)
  have "\<bar>of_int (round_even (\<bar>x\<bar> / pow2 q)) - \<bar>x\<bar> / pow2 q\<bar> \<le> 1 / 2"
    by (rule round_even_close)
  then have "\<bar>of_int (round_even (\<bar>x\<bar> / pow2 q)) - \<bar>x\<bar> / pow2 q\<bar> * pow2 q \<le> 1 / 2 * pow2 q"
    using pow2_pos [of q] by (simp add: mult_right_mono)
  moreover have "\<bar>of_int (round_even (\<bar>x\<bar> / pow2 q)) - \<bar>x\<bar> / pow2 q\<bar> * pow2 q = \<bar>w - \<bar>x\<bar>\<bar>"
  proof -
    have "\<bar>of_int (round_even (\<bar>x\<bar> / pow2 q)) - \<bar>x\<bar> / pow2 q\<bar> * \<bar>pow2 q\<bar> = \<bar>w - \<bar>x\<bar>\<bar>"
      unfolding abs_mult [symmetric] w_def using pow2_pos [of q]
      by (simp add: left_diff_distrib)
    then show ?thesis
      using pow2_pos [of q] by simp
  qed
  ultimately have e: "\<bar>w - \<bar>x\<bar>\<bar> \<le> pow2 q / 2"
    by simp
  have "q \<le> int n - 52"
    unfolding q_def using assms(2) by (rule quantum_le)
  then have "pow2 q \<le> pow2 (int n - 52)"
    by (rule pow2_mono)
  moreover have "pow2 (int n - 52) / 2 = pow2 (int n - 53)"
  proof -
    have p: "pow2 k = 2 powi k" for k
      by (simp add: pow2_def power_int_def inverse_eq_divide power_one_over)
    have "(2::rat) powi (int n - 52) = 2 powi (int n - 53 + 1)"
      by simp
    also have "\<dots> = 2 powi (int n - 53) * 2"
      by (subst power_int_add) simp_all
    finally show ?thesis
      by (simp add: p)
  qed
  ultimately have "\<bar>w - \<bar>x\<bar>\<bar> \<le> pow2 (int n - 53)"
    using e by linarith
  moreover have "\<bar>v - x\<bar> = \<bar>w - \<bar>x\<bar>\<bar>"
    using v by (cases "x < 0") (simp_all add: abs_minus_commute)
  ultimately show ?thesis by simp
qed

section \<open>The confidence string\<close>

lemma is_digit_digit_char: "d < 10 \<Longrightarrow> is_digit (digit_char d)"
  by (simp add: is_digit_def digit_char_def)

lemma digit_val_digit_char: "d < 10 \<Longrightarrow> digit_val (digit_char d) = d"
  by (simp add: digit_val_def digit_char_def)

lemma show_nat_digits: "list_all is_digit (show_nat n)"
proof (induction n rule: show_nat.induct)
  case (1 n)
  show ?case
  proof (cases "n < 10")
    case True
    then show ?thesis
      by (subst show_nat.simps) (simp add: is_digit_digit_char)
  next
    case False
    with "1.IH" show ?thesis
      by (subst show_nat.simps) (simp add: is_digit_digit_char)
  qed
qed

lemma show_nat_nonempty: "show_nat n \<noteq> []"
  by (subst show_nat.simps) simp

lemma digits_value_snoc: "digits_value (cs @ [c]) = 10 * digits_value cs + digit_val c"
  by (simp add: digits_value_def)

lemma digits_value_show_nat: "digits_value (show_nat n) = n"
proof (induction n rule: show_nat.induct)
  case (1 n)
  show ?case
  proof (cases "n < 10")
    case True
    then show ?thesis
      by (subst show_nat.simps) (simp add: digits_value_def digit_val_digit_char)
  next
    case False
    with "1.IH" show ?thesis
      by (subst show_nat.simps) (simp add: digits_value_snoc digit_val_digit_char)
  qed
qed

lemma digits_value_append:
  "digits_value (xs @ ys) = digits_value xs * 10 ^ length ys + digits_value ys"
proof (induction ys arbitrary: xs rule: rev_induct)
  case Nil
  then show ?case by (simp add: digits_value_def)
next
  case (snoc y ys)
  have "digits_value (xs @ ys @ [y]) = 10 * digits_value (xs @ ys) + digit_val y"
    using digits_value_snoc [of "xs @ ys" y] by simp
  also have "\<dots> = 10 * (digits_value xs * 10 ^ length ys + digits_value ys) + digit_val y"
    by (simp add: snoc.IH)
  also have "\<dots> = digits_value xs * 10 ^ length (ys @ [y]) + digits_value (ys @ [y])"
    by (simp add: digits_value_snoc algebra_simps)
  finally show ?case by simp
qed

lemma digits_value_zeros: "digits_value (replicate k (CHR ''0'') @ m) = digits_value m"
proof -
  have "digits_value (replicate k (CHR ''0'')) = 0"
    by (induction k) (simp_all add: digits_value_def digit_val_def)
  then show ?thesis
    by (simp add: digits_value_append)
qed

lemma takeWhile_digits:
  assumes "list_all is_digit ds" and "\<not> is_digit c"
  shows "takeWhile is_digit (ds @ c # rest) = ds" and "dropWhile is_digit (ds @ c # rest) = c # rest"
  using assms by (induction ds) auto

lemma toFixed2_digits:
  "\<bar>x\<bar> < 10 ^ 21 \<Longrightarrow>
   toFixed2 nts x = (if x < 0 then ''-'' else []) @ fixed_digits (nat \<lfloor>\<bar>x\<bar> * 100 + 1 / 2\<rfloor>)"
  by (simp add: toFixed2_def fixed_digits_def Let_def)

lemma parse_fixed_digits:
  "parse_number (fixed_digits n @ rest) = Some (of_nat n / 100)" (is ?pos)
  "parse_number (''-'' @ fixed_digits n @ rest) = Some (- (of_nat n / 100))" (is ?neg)
  if "rest = [] \<or> \<not> is_digit (hd rest)"
proof -
  define m where "m = show_nat n"
  define padded where
    "padded = (if length m \<le> 2 then replicate (3 - length m) (CHR ''0'') @ m else m)"
  define a where "a = take (length padded - 2) padded"
  define b where "b = drop (length padded - 2) padded"
  have len: "3 \<le> length padded"
    by (simp add: padded_def)
  have dig: "list_all is_digit padded"
    using show_nat_digits [of n]
    by (simp add: padded_def m_def is_digit_def list_all_iff)
  have val: "digits_value padded = n"
    by (simp add: padded_def m_def digits_value_zeros digits_value_show_nat)
  have ab: "padded = a @ b" "length b = 2" "a \<noteq> []"
    using len by (auto simp: a_def b_def)
  have da: "list_all is_digit a" and db: "list_all is_digit b"
    using dig ab(1) by simp_all
  have v: "digits_value a * 100 + digits_value b = n"
    using val ab digits_value_append [of a b] by simp
  have fd: "fixed_digits n = a @ ''.'' @ b"
    by (simp add: fixed_digits_def Let_def a_def b_def padded_def m_def)
  have nd: "\<not> is_digit (CHR ''.'')" "\<not> is_digit (CHR ''-'')"
    by (simp_all add: is_digit_def)
  have tb: "takeWhile is_digit (b @ rest) = b"
  proof (cases rest)
    case Nil
    with db show ?thesis by (simp add: list_all_iff)
  next
    case (Cons c cs)
    with that have "\<not> is_digit c" by simp
    with db Cons show ?thesis by (simp add: takeWhile_digits)
  qed
  have hd_a: "hd a \<noteq> CHR ''-''"
    using da ab(3) nd(2) by (cases a) auto
  have t1: "takeWhile is_digit (a @ CHR ''.'' # b @ rest) = a"
    and t2: "dropWhile is_digit (a @ CHR ''.'' # b @ rest) = CHR ''.'' # b @ rest"
    using da nd(1) by (simp_all add: takeWhile_digits)
  have q: "(of_nat (digits_value a) :: rat) + of_nat (digits_value b) / 10 ^ length b
      = of_nat n / 100"
  proof -
    have "(of_nat n :: rat) = of_nat (digits_value a) * 100 + of_nat (digits_value b)"
      using v by (metis of_nat_add of_nat_mult of_nat_numeral)
    then show ?thesis
      by (simp add: ab(2) field_simps)
  qed
  show ?pos
    using ab(3) hd_a q by (simp add: parse_number_def fd Let_def t1 t2 tb)
  show ?neg
    using ab(3) q by (simp add: parse_number_def fd Let_def t1 t2 tb)
qed

lemma parse_toFixed2:
  assumes "\<bar>x\<bar> < 10 ^ 21"
  shows "parse_number (toFixed2 nts x @ ''%'') = Some (round2 x)"
proof -
  have p: "''%'' = [] \<or> \<not> is_digit (hd ''%'')"
    by (simp add: is_digit_def)
  have nn: "0 \<le> \<lfloor>\<bar>x\<bar> * 100 + 1 / 2\<rfloor>"
    by simp
  show ?thesis
  proof (cases "x < 0")
    case True
    with parse_fixed_digits(2) [OF p] nn show ?thesis
      by (simp add: toFixed2_digits [OF assms] round2_def)
  next
    case False
    with parse_fixed_digits(1) [OF p] nn show ?thesis
      by (simp add: toFixed2_digits [OF assms] round2_def)
  qed
qed

lemma round2_range:
  assumes "0 \<le> x" and "x \<le> 100"
  shows "0 \<le> round2 x \<and> round2 x \<le> 100"
proof -
  have "\<lfloor>\<bar>x\<bar> * 100 + 1 / 2\<rfloor> \<le> 10000"
  proof -
    have "\<bar>x\<bar> * 100 + 1 / 2 < 10001"
      using assms by simp
    then have "\<lfloor>\<bar>x\<bar> * 100 + 1 / 2\<rfloor> < 10001"
      by (simp add: floor_less_iff)
    then show ?thesis by simp
  qed
  moreover have "0 \<le> \<lfloor>\<bar>x\<bar> * 100 + 1 / 2\<rfloor>"
    by simp
  ultimately show ?thesis
    using assms(1) by (simp add: round2_def field_simps)
qed

lemma round2_close: "\<bar>round2 x - x\<bar> \<le> 1 / 200"
proof -
  define a where "a = \<bar>x\<bar>"
  define f :: rat where "f = of_int \<lfloor>a * 100 + 1 / 2\<rfloor>"
  have "f \<le> a * 100 + 1 / 2" "a * 100 + 1 / 2 < f + 1"
    unfolding f_def by linarith+
  then have "f / 100 - a \<le> 1 / 200" "- (f / 100 - a) \<le> 1 / 200"
    by linarith+
  then have c: "\<bar>f / 100 - a\<bar> \<le> 1 / 200"
    by (rule abs_leI)
  show ?thesis
  proof (cases "x < 0")
    case True
    then have "round2 x - x = - (f / 100 - a)"
      by (simp add: round2_def f_def a_def)
    then have "\<bar>round2 x - x\<bar> = \<bar>f / 100 - a\<bar>"
      by (simp only: abs_minus_cancel)
    with c show ?thesis by (simp only:)
  next
    case False
    then have "round2 x - x = f / 100 - a"
      by (simp add: round2_def f_def a_def)
    with c show ?thesis by (simp only:)
  qed
qed

section \<open>The confidence in doubles\<close>

lemma confidence_number_unit:
  assumes "0 \<le> d" and "d \<le> 1"
  shows "\<exists>x. confidence_number d = Some x \<and> 0 \<le> x \<and> x \<le> 100 \<and>
             \<bar>x - (1 - d) * 100\<bar> \<le> 1 / 2 ^ 45"
proof -
  have k: "(1::int) < 2 ^ 53" "(100::int) < 2 ^ 53"
    by simp_all
  from assms have "0 \<le> 1 - d" "1 - d \<le> of_int 1"
    by simp_all
  from to_double_range [OF this k(1)] obtain v where
    v: "to_double (1 - d) = Some v" "0 \<le> v" "v \<le> 1"
    by auto
  from assms have "\<bar>1 - d\<bar> < 2 ^ Suc 0"
    by simp
  from to_double_error [OF v(1) this] have ev: "\<bar>v - (1 - d)\<bar> \<le> 1 / 2 ^ 53"
    by (simp add: pow2_def)
  from v have "0 \<le> v * 100" "v * 100 \<le> of_int 100"
    by simp_all
  from to_double_range [OF this k(2)] obtain x where
    x: "to_double (v * 100) = Some x" "0 \<le> x" "x \<le> 100"
    by auto
  from v have "\<bar>v * 100\<bar> < 2 ^ Suc 6"
    by simp
  from to_double_error [OF x(1) this] have ex: "\<bar>x - v * 100\<bar> \<le> 1 / 2 ^ 47"
    by (simp add: pow2_def)
  define a where "a = v - (1 - d)"
  define b where "b = x - v * 100"
  have "x - (1 - d) * 100 = b + a * 100"
    by (simp add: a_def b_def algebra_simps)
  then have "\<bar>x - (1 - d) * 100\<bar> \<le> \<bar>b\<bar> + \<bar>a\<bar> * 100"
    using abs_triangle_ineq [of b "a * 100"] by (simp add: abs_mult)
  also have "\<dots> \<le> 1 / 2 ^ 47 + 1 / 2 ^ 53 * 100"
    using ev ex unfolding a_def [symmetric] b_def [symmetric] by linarith
  also have "\<dots> \<le> 1 / 2 ^ 45"
    by simp
  finally have "\<bar>x - (1 - d) * 100\<bar> \<le> 1 / 2 ^ 45" .
  with v(1) x show ?thesis
    by (simp add: confidence_number_def)
qed

text \<open>Evaluating a rounding whose result is below \<open>2^53\<close>.\<close>

lemma to_double_eval:
  assumes "x \<noteq> 0" and "quantum x = q" and "round_even (\<bar>x\<bar> / pow2 q) = n"
    and "of_int n * pow2 q < 2 ^ 53"
  shows "to_double x = Some (if x < 0 then - (of_int n * pow2 q) else of_int n * pow2 q)"
proof -
  have "(2::rat) ^ 53 \<le> 2 ^ 1024"
    by (rule power_increasing) simp_all
  with assms(4) have "\<not> double_overflow \<le> of_int n * pow2 q"
    unfolding double_overflow_def by linarith
  then show ?thesis
    unfolding to_double_def Let_def assms(2) assms(3) using assms(1) by simp
qed

lemma confidence_number_half: "confidence_number (1 / 2) = Some 50"
proof -
  have "quantum (1 - 1 / 2) = - 53" "round_even (\<bar>1 - 1 / 2\<bar> / pow2 (- 53)) = 2 ^ 52"
    by code_simp+
  from to_double_eval [OF _ this] have a: "to_double (1 - 1 / 2) = Some (1 / 2)"
    by (simp add: pow2_def)
  have "quantum (1 / 2 * 100) = - 47" "round_even (\<bar>1 / 2 * 100\<bar> / pow2 (- 47)) = 50 * 2 ^ 47"
    by code_simp+
  from to_double_eval [OF _ this] have b: "to_double (1 / 2 * 100) = Some 50"
    by (simp add: pow2_def)
  from a b show ?thesis
    by (simp add: confidence_number_def)
qed

lemma confidence_number_three_halves: "confidence_number (3 / 2) = Some (- 50)"
proof -
  have "quantum (1 - 3 / 2) = - 53" "round_even (\<bar>1 - 3 / 2\<bar> / pow2 (- 53)) = 2 ^ 52"
    by code_simp+
  from to_double_eval [OF _ this] have a: "to_double (1 - 3 / 2) = Some (- (1 / 2))"
    by (simp add: pow2_def)
  have "quantum (- (1 / 2) * 100) = - 47"
    "round_even (\<bar>- (1 / 2) * 100\<bar> / pow2 (- 47)) = 50 * 2 ^ 47"
    by code_simp+
  from to_double_eval [OF _ this] have b: "to_double (- (1 / 2) * 100) = Some (- 50)"
    by (simp add: pow2_def)
  from a b show ?thesis
    by (simp add: confidence_number_def)
qed

text \<open>
  The distance \<^verbatim>\<open>0.00015\<close>, which is the double \<open>5534023222112865 / 2^65\<close>: the
  difference and the product are both rounded, and the result is below 99.985 although
  the exact \<open>(1 - d) * 100\<close> is above it.
\<close>

lemma confidence_number_rounded:
  "confidence_number (5534023222112865 / 2 ^ 65) = Some (7035818886603735 / 2 ^ 46)"
proof -
  have "quantum (1 - 5534023222112865 / 2 ^ 65) = - 53"
    "round_even (\<bar>1 - 5534023222112865 / 2 ^ 65\<bar> / pow2 (- 53)) = 9005848174852781"
    by code_simp+
  from to_double_eval [OF _ this]
  have a: "to_double (1 - 5534023222112865 / 2 ^ 65) = Some (9005848174852781 / 2 ^ 53)"
    by (simp add: pow2_def)
  have "quantum (9005848174852781 / 2 ^ 53 * 100) = - 46"
    "round_even (\<bar>9005848174852781 / 2 ^ 53 * 100\<bar> / pow2 (- 46)) = 7035818886603735"
    by code_simp+
  from to_double_eval [OF _ this]
  have b: "to_double (9005848174852781 / 2 ^ 53 * 100) = Some (7035818886603735 / 2 ^ 46)"
    by (simp add: pow2_def)
  from a b show ?thesis
    by (simp add: confidence_number_def)
qed

lemma exact_rounded:
  "round2 ((1 - 5534023222112865 / 2 ^ 65) * 100) = 9999 / 100"
  "round2 (7035818886603735 / 2 ^ 46) = 9998 / 100"
  by code_simp+

section \<open>The confidence of a match entry\<close>

lemma handler_200:
  assumes "statusCode (fst (handler env body)) = 200"
  shows "\<exists>refs detections.
           getProp (jsonBody (fst (handler env body))) ''matches''
             = JArr (map (match_json (numberToString env))
                  (map (findBestMatch env refs FACE_MATCHER_THRESHOLD) detections))"
  using assms
  by (auto simp: handler_def Let_def internal_error_def
      split: if_splits prod.splits sum.splits)

lemma parse_confidence:
  assumes "confidence_number d = Some x" and "\<bar>x\<bar> < 10 ^ 21"
  shows "parse_number (confidence nts d) = Some (round2 x)"
  using assms by (simp add: confidence_def parse_toFixed2)

lemma parse_confidence_unit:
  assumes "0 \<le> d" and "d \<le> 1"
  shows "\<exists>x. confidence_number d = Some x \<and>
             parse_number (confidence nts d) = Some (round2 x) \<and>
             0 \<le> round2 x \<and> round2 x \<le> 100 \<and>
             \<bar>round2 x - (1 - d) * 100\<bar> \<le> 1 / 200 + 1 / 2 ^ 45"
proof -
  from confidence_number_unit [OF assms] obtain x where
    x: "confidence_number d = Some x" "0 \<le> x" "x \<le> 100"
      "\<bar>x - (1 - d) * 100\<bar> \<le> 1 / 2 ^ 45"
    by blast
  from x(2,3) have "\<bar>x\<bar> < 10 ^ 21"
    by simp
  with x(1) have p: "parse_number (confidence nts d) = Some (round2 x)"
    by (rule parse_confidence)
  from x(2,3) have r: "0 \<le> round2 x \<and> round2 x \<le> 100"
    by (rule round2_range)
  define a where "a = round2 x - x"
  define b where "b = x - (1 - d) * 100"
  have "\<bar>a\<bar> \<le> 1 / 200"
    unfolding a_def by (rule round2_close)
  moreover have "\<bar>b\<bar> \<le> 1 / 2 ^ 45"
    unfolding b_def by (rule x(4))
  moreover have "\<bar>a + b\<bar> \<le> \<bar>a\<bar> + \<bar>b\<bar>"
    by (rule abs_triangle_ineq)
  ultimately have "\<bar>a + b\<bar> \<le> 1 / 200 + 1 / 2 ^ 45"
    by linarith
  moreover have "a + b = round2 x - (1 - d) * 100"
    by (simp add: a_def b_def)
  ultimately have "\<bar>round2 x - (1 - d) * 100\<bar> \<le> 1 / 200 + 1 / 2 ^ 45"
    by (simp only:)
  with x(1) p r show ?thesis
    by blast
qed

text \<open>
  C6 (amended). For every match entry of a 200 response, with \<open>d\<close> its reported
  distance: the confidence string reads as the double \<^verbatim>\<open>(1 - d) * 100\<close>, the
  difference and the product each rounded to the nearest double, rounded to two decimals
  (for a magnitude below \<open>10^21\<close>). Whenever \<open>d\<close> lies between 0 and 1, this
  number lies between 0 and 100 and is at most \<open>1/200 + 2^-45\<close> away from the exact
  \<open>(1 - d) * 100\<close>.
\<close>

theorem handler_match_confidence:
  assumes "statusCode (fst (handler env body)) = 200"
  shows "\<exists>ms. getProp (jsonBody (fst (handler env body))) ''matches'' = JArr ms \<and>
           (\<forall>m \<in> set ms. \<exists>l d c.
              m = JObj [(''label'', JStr l), (''distance'', JNum d), (''confidence'', JStr c)] \<and>
              (\<forall>x. confidence_number d = Some x \<and> \<bar>x\<bar> < 10 ^ 21 \<longrightarrow>
                 parse_number c = Some (round2 x)) \<and>
              (0 \<le> d \<and> d \<le> 1 \<longrightarrow>
                 (\<exists>x. confidence_number d = Some x \<and>
                    parse_number c = Some (round2 x) \<and>
                    0 \<le> round2 x \<and> round2 x \<le> 100 \<and>
                    \<bar>round2 x - (1 - d) * 100\<bar> \<le> 1 / 200 + 1 / 2 ^ 45)))"
proof -
  from handler_200 [OF assms] obtain refs detections where
    ms: "getProp (jsonBody (fst (handler env body))) ''matches''
           = JArr (map (match_json (numberToString env))
                (map (findBestMatch env refs FACE_MATCHER_THRESHOLD) detections))"
    by blast
  have "\<exists>l d c.
          match_json (numberToString env) r
            = JObj [(''label'', JStr l), (''distance'', JNum d), (''confidence'', JStr c)] \<and>
          (\<forall>x. confidence_number d = Some x \<and> \<bar>x\<bar> < 10 ^ 21 \<longrightarrow>
             parse_number c = Some (round2 x)) \<and>
          (0 \<le> d \<and> d \<le> 1 \<longrightarrow>
             (\<exists>x. confidence_number d = Some x \<and>
                parse_number c = Some (round2 x) \<and>
                0 \<le> round2 x \<and> round2 x \<le> 100 \<and>
                \<bar>round2 x - (1 - d) * 100\<bar> \<le> 1 / 200 + 1 / 2 ^ 45))" for r
  proof (intro exI conjI)
    show "match_json (numberToString env) r
            = JObj [(''label'', JStr (fst r)), (''distance'', JNum (snd r)),
                    (''confidence'', JStr (confidence (numberToString env) (snd r)))]"
      by (simp add: match_json_def)
    show "\<forall>x. confidence_number (snd r) = Some x \<and> \<bar>x\<bar> < 10 ^ 21 \<longrightarrow>
            parse_number (confidence (numberToString env) (snd r)) = Some (round2 x)"
      using parse_confidence by blast
    show "0 \<le> snd r \<and> snd r \<le> 1 \<longrightarrow>
          (\<exists>x. confidence_number (snd r) = Some x \<and>
            parse_number (confidence (numberToString env) (snd r)) = Some (round2 x) \<and>
            0 \<le> round2 x \<and> round2 x \<le> 100 \<and>
            \<bar>round2 x - (1 - snd r) * 100\<bar> \<le> 1 / 200 + 1 / 2 ^ 45)"
      using parse_confidence_unit by blast
  qed
  with ms show ?thesis
    by auto
qed

lemma digit_chars:
  "digit_char 0 = CHR ''0''" "digit_char 5 = CHR ''5''"
  "digit_char 8 = CHR ''8''" "digit_char 9 = CHR ''9''"
  by code_simp+

lemma fixed_digits_5000: "fixed_digits 5000 = ''50.00''"
  by (simp add: fixed_digits_def Let_def show_nat.simps digit_chars)

lemma fixed_digits_9998: "fixed_digits 9998 = ''99.98''"
  by (simp add: fixed_digits_def Let_def show_nat.simps digit_chars)

lemma toFixed2_fifty:
  "toFixed2 nts 50 = ''50.00''" "toFixed2 nts (- 50) = ''-50.00''"
proof -
  have b: "\<bar>50\<bar> < (10::rat) ^ 21" "\<bar>- 50\<bar> < (10::rat) ^ 21"
    by simp_all
  have n: "nat \<lfloor>\<bar>50\<bar> * 100 + 1 / (2::rat)\<rfloor> = 5000"
    "nat \<lfloor>\<bar>- 50\<bar> * 100 + 1 / (2::rat)\<rfloor> = 5000"
    by code_simp+
  show "toFixed2 nts 50 = ''50.00''"
    unfolding toFixed2_digits [OF b(1)] n fixed_digits_5000 by simp
  show "toFixed2 nts (- 50) = ''-50.00''"
    unfolding toFixed2_digits [OF b(2)] n fixed_digits_5000 by simp
qed

lemma confidence_half: "confidence nts (1 / 2) = ''50.00%''"
  unfolding confidence_def confidence_number_half by (simp add: toFixed2_fifty)

lemma confidence_three_halves: "confidence nts (3 / 2) = ''-50.00%''"
  unfolding confidence_def confidence_number_three_halves by (simp add: toFixed2_fifty)

text \<open>
  At the distance \<^verbatim>\<open>0.00015\<close> the handler prints \<^verbatim>\<open>99.98%\<close>, and the exact
  \<open>(1 - d) * 100\<close> rounded to two decimals is 99.99.
\<close>

lemma confidence_rounded:
  "confidence nts (5534023222112865 / 2 ^ 65) = ''99.98%''"
proof -
  have b: "\<bar>7035818886603735 / 2 ^ 46\<bar> < (10::rat) ^ 21"
    by simp
  have "\<lfloor>\<bar>7035818886603735 / 2 ^ 46\<bar> * 100 + 1 / (2::rat)\<rfloor> = 9998"
    by (rule floor_unique) simp_all
  then have n: "nat \<lfloor>\<bar>7035818886603735 / 2 ^ 46\<bar> * 100 + 1 / (2::rat)\<rfloor> = 9998"
    by (simp only: nat_numeral)
  have "toFixed2 nts (7035818886603735 / 2 ^ 46) = ''99.98''"
    unfolding toFixed2_digits [OF b] n fixed_digits_9998 by simp
  then show ?thesis
    unfolding confidence_def confidence_number_rounded by simp
qed

lemma world_match:
  "match_json (numberToString world) (findBestMatch world (r # rs) t d)
     = JObj [(''label'', JStr (if of_nat d / 4 < t then label r else ''unknown'')),
             (''distance'', JNum (of_nat d / 4)),
             (''confidence'', JStr (confidence (numberToString world) (of_nat d / 4)))]"
  by (simp add: match_json_def world_def)

lemma world_group_reply:
  "fst (handler world (request [entry 1 ''http://img/alice.jpg''] ''http://img/group.jpg''))
     = \<lparr> statusCode = 200,
         jsonBody = JObj
           [(''success'', JBool True),
            (''totalFacesDetected'', JNum 2),
            (''matches'', JArr
   [JObj [(''label'', JStr ''1''), (''distance'', JNum (1 / 2)),
          (''confidence'', JStr ''50.00%'')],
    JObj [(''label'', JStr ''unknown''), (''distance'', JNum (3 / 2)),
          (''confidence'', JStr ''-50.00%'')]])] \<rparr>"
proof -
  have ne: "[entry 1 ''http://img/alice.jpg''] \<noteq> []" "''http://img/group.jpg'' \<noteq> []"
    by simp_all
  show ?thesis
    by (simp add: handler_valid [OF request_props(1) ne(1) request_props(2) ne(2)]
        initializeModels_ok [OF world_models] world_refs_alice world_group world_group_faces
        world_match confidence_half confidence_three_halves FACE_MATCHER_THRESHOLD_def)
qed

text \<open>
  C6 (as stated: the confidence always reads as a number between 0 and 100). The matcher
  reports the distance it computed, which is not bounded by 1, and the handler does not
  clamp it: a face at the distance 3/2, which the matcher labels \<^verbatim>\<open>unknown\<close>, gets
  the confidence \<^verbatim>\<open>-50.00%\<close>.
\<close>

theorem confidence_below_zero:
  "statusCode (fst (handler world
      (request [entry 1 ''http://img/alice.jpg''] ''http://img/group.jpg''))) = 200 \<and>
   JObj [(''label'', JStr ''unknown''), (''distance'', JNum (3 / 2)),
         (''confidence'', JStr ''-50.00%'')]
     \<in> set (elements (getProp (jsonBody (fst (handler world
          (request [entry 1 ''http://img/alice.jpg''] ''http://img/group.jpg'')))) ''matches'')) \<and>
   parse_number ''-50.00%'' = Some (- 50) \<and>
   \<not> (0 :: rat) \<le> - 50"
proof -
  have "parse_number ''-50.00%'' = Some (- 50)"
    by code_simp
  then show ?thesis
    by (simp add: world_group_reply)
qed

theorem handler_match_confidence_witness:
  "statusCode (fst (handler world
      (request [entry 1 ''http://img/alice.jpg''] ''http://img/group.jpg''))) = 200 \<and>
   JObj [(''label'', JStr ''1''), (''distance'', JNum (1 / 2)), (''confidence'', JStr ''50.00%'')]
     \<in> set (elements (getProp (jsonBody (fst (handler world
          (request [entry 1 ''http://img/alice.jpg''] ''http://img/group.jpg'')))) ''matches'')) \<and>
   confidence_number (1 / 2) = Some 50 \<and>
   parse_number ''50.00%'' = Some (round2 50) \<and>
   round2 50 = 50 \<and>
   \<bar>round2 50 - (1 - 1 / 2) * 100\<bar> \<le> 1 / 200 + 1 / 2 ^ 45"
proof -
  let ?r = "handler world (request [entry 1 ''http://img/alice.jpg''] ''http://img/group.jpg'')"
  let ?m = "JObj [(''label'', JStr ''1''), (''distance'', JNum (1 / 2)),
                  (''confidence'', JStr ''50.00%'')]"
  have s: "statusCode (fst ?r) = 200"
    by (simp add: world_group_reply)
  have m: "?m \<in> set (elements (getProp (jsonBody (fst ?r)) ''matches''))"
    by (simp add: world_group_reply)
  from handler_match_confidence [OF s] obtain ms where
    "getProp (jsonBody (fst ?r)) ''matches'' = JArr ms \<and>
     (\<forall>m \<in> set ms. \<exists>l d c.
      m = JObj [(''label'', JStr l), (''distance'', JNum d), (''confidence'', JStr c)] \<and>
      (\<forall>x. confidence_number d = Some x \<and> \<bar>x\<bar> < 10 ^ 21 \<longrightarrow>
         parse_number c = Some (round2 x)) \<and>
      (0 \<le> d \<and> d \<le> 1 \<longrightarrow>
         (\<exists>x. confidence_number d = Some x \<and>
            parse_number c = Some (round2 x) \<and>
            0 \<le> round2 x \<and> round2 x \<le> 100 \<and>
            \<bar>round2 x - (1 - d) * 100\<bar> \<le> 1 / 200 + 1 / 2 ^ 45)))" ..
  then have ms: "getProp (jsonBody (fst ?r)) ''matches'' = JArr ms"
    and conf: "\<forall>m \<in> set ms. \<exists>l d c.
      m = JObj [(''label'', JStr l), (''distance'', JNum d), (''confidence'', JStr c)] \<and>
      (\<forall>x. confidence_number d = Some x \<and> \<bar>x\<bar> < 10 ^ 21 \<longrightarrow>
         parse_number c = Some (round2 x)) \<and>
      (0 \<le> d \<and> d \<le> 1 \<longrightarrow>
         (\<exists>x. confidence_number d = Some x \<and>
            parse_number c = Some (round2 x) \<and>
            0 \<le> round2 x \<and> round2 x \<le> 100 \<and>
            \<bar>round2 x - (1 - d) * 100\<bar> \<le> 1 / 200 + 1 / 2 ^ 45))"
    by (rule conjunct1, rule conjunct2)
  from m ms have "?m \<in> set ms"
    by simp
  with conf have "\<exists>l d c.
      ?m = JObj [(''label'', JStr l), (''distance'', JNum d), (''confidence'', JStr c)] \<and>
      (\<forall>x. confidence_number d = Some x \<and> \<bar>x\<bar> < 10 ^ 21 \<longrightarrow>
         parse_number c = Some (round2 x)) \<and>
      (0 \<le> d \<and> d \<le> 1 \<longrightarrow>
         (\<exists>x. confidence_number d = Some x \<and>
            parse_number c = Some (round2 x) \<and>
            0 \<le> round2 x \<and> round2 x \<le> 100 \<and>
            \<bar>round2 x - (1 - d) * 100\<bar> \<le> 1 / 200 + 1 / 2 ^ 45))"
    by (rule bspec)
  then obtain l d c where
    e: "?m = JObj [(''label'', JStr l), (''distance'', JNum d), (''confidence'', JStr c)]"
    and p: "\<forall>x. confidence_number d = Some x \<and> \<bar>x\<bar> < 10 ^ 21 \<longrightarrow>
         parse_number c = Some (round2 x)"
    and q: "0 \<le> d \<and> d \<le> 1 \<longrightarrow>
         (\<exists>x. confidence_number d = Some x \<and>
            parse_number c = Some (round2 x) \<and>
            0 \<le> round2 x \<and> round2 x \<le> 100 \<and>
            \<bar>round2 x - (1 - d) * 100\<bar> \<le> 1 / 200 + 1 / 2 ^ 45)"
    by (elim exE conjE)
  from e have d: "d = 1 / 2" and c: "c = ''50.00%''"
    by simp_all
  have "0 \<le> d \<and> d \<le> 1"
    by (simp add: d)
  with q obtain x where "confidence_number d = Some x"
    and "\<bar>round2 x - (1 - d) * 100\<bar> \<le> 1 / 200 + 1 / 2 ^ 45"
    by blast
  then have close: "\<bar>round2 50 - (1 - 1 / 2) * 100\<bar> \<le> 1 / 200 + 1 / 2 ^ 45"
    unfolding d by (simp only: confidence_number_half option.inject)
  from p have "confidence_number d = Some 50 \<and> \<bar>50\<bar> < (10::rat) ^ 21 \<longrightarrow>
      parse_number c = Some (round2 50)"
    by (rule spec)
  then have "parse_number ''50.00%'' = Some (round2 50)"
    unfolding d c by (simp add: confidence_number_half)
  moreover have "round2 50 = 50"
    by code_simp
  ultimately show ?thesis
    using s m close by (simp only: confidence_number_half simp_thms)
qed

end
